theory Spec2Isabelle
  imports Main "HOL-Library.AList"
begin

section \<open>Data model of \<open>lib/Bcp.js\<close>\<close>

text \<open>
  A JavaScript string is modelled as a \<^typ>\<open>string\<close>: one \<^typ>\<open>char\<close> per code unit,
  for the strings whose code units are below 256. \<open>NUL\<close> is \<open>String.fromCharCode(0)\<close>.
\<close>

definition NUL :: string where
  "NUL = [CHR 0x00]"

text \<open>
  The three constructors stored in \<open>Bcp.typesMap\<close>. A type tag that is not a key of the
  table looks up \<open>undefined\<close> (or some inherited member of the object), which matches
  no \<open>case\<close> label of the \<open>switch\<close> in \<open>fieldDeserialize\<close>: it is \<open>None\<close> here.
\<close>

datatype cons = Boolean | Number | Date

definition typesMap :: "(string \<times> cons) list" where
  "typesMap =
    [(''SQLBIT'', Boolean),
     (''SQLTINYINT'', Number),
     (''SQLSMALLINT'', Number),
     (''SQLINT'', Number),
     (''SQLBIGINT'', Number),
     (''SQLFLT4'', Number),
     (''SQLFLT8'', Number),
     (''SQLDATETIME'', Date),
     (''SQLDATETIM4'', Date),
     (''SQLDATETIM8'', Date)]"

text \<open>A field of a format file: the members the reader and \<open>prepareBulkInsert\<close> use.\<close>

record field =
  name :: string
  type :: string
  terminator :: string
  inImport :: bool

text \<open>
  The values \<open>fieldDeserialize\<close> returns. \<open>Number(value)\<close> and \<open>new Date(value)\<close> are
  built-ins of the language working on floating point numbers; their results are kept
  symbolically, as the built-in applied to the raw string.
\<close>

datatype decoded =
    DNull
  | DString string
  | DBoolean bool
  | NumberOf string
  | DateOf string

definition fieldDeserialize :: "string \<Rightarrow> field \<Rightarrow> decoded" where
  "fieldDeserialize v f =
    (let cons = map_of typesMap (type f) in
     if v = [] then DNull
     else if v = NUL then DString []
     else (case cons of
             Some Date \<Rightarrow> DateOf v
           | Some Number \<Rightarrow> NumberOf v
           | Some Boolean \<Rightarrow> DBoolean (v = ''1'')
           | None \<Rightarrow> DString v))"

section \<open>The reader: \<open>Bcp.readExport\<close>\<close>

text \<open>
  \<open>String.prototype.indexOf(searchString, position)\<close>: the start is clamped to the length
  of the string, and the result is the least index from there on at which the search
  string occurs (the empty string occurs everywhere, also at the very end); \<open>-1\<close> is
  \<open>None\<close>.
\<close>

definition occursAt :: "string \<Rightarrow> string \<Rightarrow> nat \<Rightarrow> bool" where
  "occursAt s t k \<longleftrightarrow> k + length t \<le> length s \<and> take (length t) (drop k s) = t"

definition indexOf :: "string \<Rightarrow> string \<Rightarrow> nat \<Rightarrow> nat option" where
  "indexOf s t pos = find (occursAt s t) [min pos (length s) ..< Suc (length s)]"

text \<open>
  \<open>String.prototype.substring(start, end)\<close>: both indices are clamped to the length and
  swapped when they come in the wrong order.
\<close>

definition substring :: "string \<Rightarrow> nat \<Rightarrow> nat \<Rightarrow> string" where
  "substring s a b =
    (let a' = min a (length s); b' = min b (length s);
         lo = min a' b'; hi = max a' b'
     in take (hi - lo) (drop lo s))"

text \<open>
  A row is the object \<open>o\<close> built for one record: its own properties, in the order in
  which they were first assigned. An assignment \<open>o[k] = v\<close> overwrites a property that is
  already there; with \<open>k = "__proto__"\<close> it reaches the inherited setter and creates no
  own property.
\<close>

type_synonym row = "(string \<times> decoded) list"

definition setProperty :: "row \<Rightarrow> string \<Rightarrow> decoded \<Rightarrow> row" where
  "setProperty obj k v = (if k = ''__proto__'' then obj else AList.update k v obj)"

text \<open>
  The inner \<open>for\<close> loop over the fields, from offset \<open>i\<close> with the object \<open>obj\<close>.
  \<open>None\<close> is \<open>break data_loop\<close>: a terminator was not found. Otherwise the loop ends
  with the offset behind the last terminator and the filled object.
\<close>

fun fieldLoop :: "string \<Rightarrow> field list \<Rightarrow> nat \<Rightarrow> row \<Rightarrow> (nat \<times> row) option" where
  "fieldLoop data [] i obj = Some (i, obj)"
| "fieldLoop data (f # fs) i obj =
    (let t = terminator f in
     case indexOf data t i of
       None \<Rightarrow> None
     | Some dex \<Rightarrow>
         fieldLoop data fs (dex + length t)
           (setProperty obj (name f) (fieldDeserialize (substring data i dex) f)))"

text \<open>
  The outer \<open>while (i < data.length)\<close> loop, labelled \<open>data_loop\<close> in the source. It may
  run forever, so it is a partial function: \<open>None\<close> means that the loop does not return.
\<close>

partial_function (option) data_loop ::
  "string \<Rightarrow> field list \<Rightarrow> nat \<Rightarrow> row list \<Rightarrow> row list option" where
  "data_loop data fs i rows =
    (if i < length data then
       (case fieldLoop data fs i [] of
          None \<Rightarrow> Some rows
        | Some (i', obj) \<Rightarrow> data_loop data fs i' (rows @ [obj]))
     else Some rows)"

declare data_loop.simps [code]

text \<open>The rows decoded from a buffer that was read successfully.\<close>

definition readRows :: "string \<Rightarrow> field list \<Rightarrow> row list option" where
  "readRows data fs = data_loop data fs 0 []"

section \<open>Values, tokens and built-ins\<close>

text \<open>
  The primitive values that option objects and paths hold. Numbers are the integers (the
  numeric options are counts of rows, bytes and errors).
\<close>

datatype jsval = JUndefined | JNull | JBool bool | JNum int | JStr string

fun truthy :: "jsval \<Rightarrow> bool" where
  "truthy JUndefined = False"
| "truthy JNull = False"
| "truthy (JBool b) = b"
| "truthy (JNum n) = (n \<noteq> 0)"
| "truthy (JStr s) = (s \<noteq> [])"

text \<open>\<open>a || b\<close>\<close>

definition jsOr :: "jsval \<Rightarrow> jsval \<Rightarrow> jsval" where
  "jsOr a b = (if truthy a then a else b)"

text \<open>The decimal numeral of an integer: what string conversion gives for a number.\<close>

fun digitsOf :: "nat \<Rightarrow> string" where
  "digitsOf n =
    (if n < 10 then [''0123456789'' ! n]
     else digitsOf (n div 10) @ [''0123456789'' ! (n mod 10)])"

declare digitsOf.simps [simp del]

definition numberToString :: "int \<Rightarrow> string" where
  "numberToString n = (if n < 0 then CHR ''-'' # digitsOf (nat (- n)) else digitsOf (nat n))"

text \<open>
  \<open>JSON.stringify\<close> of a string: the string in double quotes, with the quote, the
  backslash and the control characters escaped.
\<close>

definition quoteChar :: "char \<Rightarrow> string" where
  "quoteChar c =
    (if c = CHR 0x08 then [CHR 0x5C, CHR ''b'']
     else if c = CHR 0x09 then [CHR 0x5C, CHR ''t'']
     else if c = CHR 0x0A then [CHR 0x5C, CHR ''n'']
     else if c = CHR 0x0C then [CHR 0x5C, CHR ''f'']
     else if c = CHR 0x0D then [CHR 0x5C, CHR ''r'']
     else if c = CHR 0x22 then [CHR 0x5C, CHR 0x22]
     else if c = CHR 0x5C then [CHR 0x5C, CHR 0x5C]
     else if (of_char c :: nat) < 32 then
       [CHR 0x5C, CHR ''u'', CHR ''0'', CHR ''0'',
        ''0123456789abcdef'' ! ((of_char c :: nat) div 16),
        ''0123456789abcdef'' ! ((of_char c :: nat) mod 16)]
     else [c])"

definition JSON_stringify :: "string \<Rightarrow> string" where
  "JSON_stringify s = CHR 0x22 # concat (map quoteChar s) @ [CHR 0x22]"

text \<open>
  The text that \<open>JSON.stringify(v)\<close> contributes to a string concatenation, for any
  primitive value (\<open>JSON.stringify(undefined)\<close> is \<open>undefined\<close>).
\<close>

fun jsonText :: "jsval \<Rightarrow> string" where
  "jsonText JUndefined = ''undefined''"
| "jsonText JNull = ''null''"
| "jsonText (JBool b) = (if b then ''true'' else ''false'')"
| "jsonText (JNum n) = numberToString n"
| "jsonText (JStr s) = JSON_stringify s"

text \<open>\<open>Array.prototype.join\<close> on an array of strings.\<close>

fun joinWith :: "string \<Rightarrow> string list \<Rightarrow> string" where
  "joinWith sep [] = []"
| "joinWith sep [x] = x"
| "joinWith sep (x # y # ys) = x @ sep @ joinWith sep (y # ys)"

text \<open>
  \<open>String.prototype.toLowerCase\<close>, on the code units below 256: the letters \<open>A\<close> to
  \<open>Z\<close> (65 to 90) and the Latin-1 capitals \<open>U+00C0\<close> to \<open>U+00DE\<close> (192 to 222, without
  the multiplication sign 215) move up by 32; every other code unit is left as it is.
\<close>

definition lowerChar :: "char \<Rightarrow> char" where
  "lowerChar c =
    (let n = (of_char c :: nat)
     in if (65 \<le> n \<and> n \<le> 90) \<or> (192 \<le> n \<and> n \<le> 214) \<or> (216 \<le> n \<and> n \<le> 222)
        then char_of (n + 32) else c)"

definition toLowerCase :: "string \<Rightarrow> string" where
  "toLowerCase s = map lowerChar s"

text \<open>\<open>Array.prototype.indexOf\<close>: the first index holding the element.\<close>

fun arrayIndexOf :: "'a list \<Rightarrow> 'a \<Rightarrow> nat option" where
  "arrayIndexOf [] x = None"
| "arrayIndexOf (y # ys) x = (if y = x then Some 0 else map_option Suc (arrayIndexOf ys x))"

section \<open>The \<open>Bcp\<close> object and the argument builder\<close>

text \<open>
  The members of a constructed \<open>Bcp\<close> object, with their documented types. A member
  that the constructor coerces with \<open>!!\<close> is a \<^typ>\<open>bool\<close>; a number or string member
  that was not given is \<open>None\<close>.
\<close>

record bcp =
  exec :: string
  timeout :: nat
  killSignal :: string
  tmp :: string
  database :: "string option"
  schema :: "string option"
  packetSize :: "int option"
  batchSize :: "int option"
  unicode :: bool
  codePage :: "string option"
  errorFile :: "string option"
  useIdentity :: bool
  firstRow :: "int option"
  order :: "string option"
  rowsPerBatch :: "int option"
  kbPerBatch :: "int option"
  tabLock :: bool
  checkConstraints :: bool
  fireTriggers :: bool
  inputFile :: "string option"
  keepNulls :: bool
  readOnly :: bool
  lastRow :: "int option"
  maxErrors :: "int option"
  password :: "string option"
  quotedIdentifiers :: bool
  rowTerminator :: "string option"
  regional :: bool
  server :: "string option"
  fieldTerminator :: "string option"
  trusted :: bool
  user :: "string option"

text \<open>An element of the argument array: a string or a number.\<close>

datatype arg = ArgStr string | ArgNum int

fun argText :: "arg \<Rightarrow> string" where
  "argText (ArgStr s) = s"
| "argText (ArgNum n) = numberToString n"

text \<open>
  The recurring blocks of \<open>getCommonArgs\<close>, each giving the tokens it pushes:
  \<^item> \<open>if (x) { args.push(flag); args.push(Number(x)); }\<close>
  \<^item> \<open>if (x) { args.push(flag); args.push(JSON.stringify(String(x))); }\<close>
  \<^item> \<open>if (x) args.push(flag);\<close>
  \<^item> the \<open>switch (x[0])\<close> of the two terminators.
\<close>

definition numFlag :: "string \<Rightarrow> int option \<Rightarrow> arg list" where
  "numFlag flag x =
    (case x of
       Some n \<Rightarrow> if n \<noteq> 0 then [ArgStr flag, ArgNum n] else []
     | None \<Rightarrow> [])"

definition strFlag :: "string \<Rightarrow> string option \<Rightarrow> arg list" where
  "strFlag flag x =
    (case x of
       Some s \<Rightarrow> if s \<noteq> [] then [ArgStr flag, ArgStr (JSON_stringify s)] else []
     | None \<Rightarrow> [])"

definition boolFlag :: "string \<Rightarrow> bool \<Rightarrow> arg list" where
  "boolFlag flag b = (if b then [ArgStr flag] else [])"

definition termFlag :: "string \<Rightarrow> string option \<Rightarrow> arg list" where
  "termFlag flag x =
    (case x of
       Some (c # cs) \<Rightarrow>
         if c = CHR ''-'' \<or> c = CHR ''/'' then [ArgStr (flag @ c # cs)]
         else [ArgStr flag, ArgStr (JSON_stringify (c # cs))]
     | _ \<Rightarrow> [])"

text \<open>The \<open>hints\<close> array of \<open>getCommonArgs\<close>.\<close>

definition strHint :: "string option \<Rightarrow> string list" where
  "strHint x =
    (case x of
       Some s \<Rightarrow> if s \<noteq> [] then [''ORDER('' @ s @ '')''] else []
     | None \<Rightarrow> [])"

definition numHint :: "string \<Rightarrow> int option \<Rightarrow> string list" where
  "numHint key x =
    (case x of
       Some n \<Rightarrow> if n \<noteq> 0 then [key @ numberToString n] else []
     | None \<Rightarrow> [])"

definition hints :: "bcp \<Rightarrow> string list" where
  "hints b =
     strHint (order b)
     @ numHint ''ROWS_PER_BATCH='' (rowsPerBatch b)
     @ numHint ''KILOBYTES_PER_BATCH='' (kbPerBatch b)
     @ (if tabLock b then [''TABLOCK''] else [])
     @ (if checkConstraints b then [''CHECK_CONSTRAINTS''] else [])
     @ (if fireTriggers b then [''FIRE_TRIGGERS''] else [])"

definition getCommonArgs :: "bcp \<Rightarrow> bool \<Rightarrow> arg list" where
  "getCommonArgs b omitFormat =
     numFlag ''-a'' (packetSize b)
     @ numFlag ''-b'' (batchSize b)
     @ (if \<not> omitFormat then (if unicode b then [ArgStr ''-w''] else [ArgStr ''-c'']) else [])
     @ (if \<not> omitFormat then strFlag ''-C'' (codePage b) else [])
     @ strFlag ''-e'' (errorFile b)
     @ boolFlag ''-E'' (useIdentity b)
     @ numFlag ''-F'' (firstRow b)
     @ strFlag ''-i'' (inputFile b)
     @ (if readOnly b then [ArgStr ''-K'', ArgStr ''ReadOnly''] else [])
     @ boolFlag ''-k'' (keepNulls b)
     @ numFlag ''-L'' (lastRow b)
     @ numFlag ''-m'' (maxErrors b)
     @ boolFlag ''-R'' (regional b)
     @ (if \<not> omitFormat then termFlag ''-r'' (rowTerminator b) else [])
     @ strFlag ''-S'' (server b)
     @ (if \<not> omitFormat then termFlag ''-t'' (fieldTerminator b) else [])
     @ (if trusted b then [ArgStr ''-T'']
        else strFlag ''-U'' (user b) @ strFlag ''-P'' (password b))
     @ (if length (hints b) > 0
        then [ArgStr ''-h'', ArgStr (JSON_stringify (joinWith '','' (hints b)))]
        else [])"

definition getQualifiedTable :: "bcp \<Rightarrow> string \<Rightarrow> string" where
  "getQualifiedTable b table =
    (let arg = ''['' @ table @ '']'';
         arg = (case schema b of
                  Some s \<Rightarrow> if s \<noteq> [] then ''['' @ s @ ''].'' @ arg else arg
                | None \<Rightarrow> arg);
         arg = (case database b of
                  Some d \<Rightarrow> if d \<noteq> [] then ''['' @ d @ ''].'' @ arg else arg
                | None \<Rightarrow> arg)
     in if quotedIdentifiers b then JSON_stringify arg else arg)"

section \<open>The environment and the operations\<close>

text \<open>An \<open>Error\<close> object with its message.\<close>

datatype jserror = Error string

text \<open>
  A format file object: the members this module reads (\<open>fields'\<close> is the member
  \<open>fields\<close>).
\<close>

record format =
  fields' :: "field list"
  encoding :: string
  filename :: string

text \<open>
  Everything outside the module that an operation consults: the clock, the random
  generator and the process id behind \<open>tempFile\<close>, the path functions, the file system,
  the child process and the format file loader. A call that reports through a callback
  is a function giving the error or the result.
  \<^item> \<open>getTime\<close> is \<open>new Date().getTime()\<close>, \<open>randomInt\<close> is
    \<open>Math.floor(Math.random() * 4000000000)\<close>, \<open>processPid\<close> is \<open>process.pid\<close>;
  \<^item> \<open>pathJoin\<close> is \<open>Path.join\<close>, \<open>parentDir p\<close> is
    \<open>Path.dirname(Path.resolve(process.cwd(), p))\<close>;
  \<^item> \<open>mkdirp\<close>, \<open>unlink\<close> and \<open>readFile\<close> (with the encoding) are the file system;
  \<^item> \<open>childExec\<close> is \<open>ChildProcess.exec\<close> with the command, the timeout and the kill
    signal, giving the error or the captured standard output;
  \<^item> \<open>fromFile\<close> is \<open>FormatFile.fromFile\<close>.
\<close>

record env =
  getTime :: nat
  randomInt :: nat
  processPid :: nat
  pathJoin :: "string \<Rightarrow> string \<Rightarrow> string"
  parentDir :: "jsval \<Rightarrow> string"
  mkdirp :: "string \<Rightarrow> jserror option"
  unlink :: "jsval \<Rightarrow> jserror option"
  readFile :: "jsval \<Rightarrow> string \<Rightarrow> jserror + string"
  childExec :: "string \<Rightarrow> nat \<Rightarrow> string \<Rightarrow> jserror + string"
  fromFile :: "jsval \<Rightarrow> jserror + format"

text \<open>The effects of an operation on the outside, in the order in which it starts them.\<close>

datatype event =
    MkDir string
  | Exec string
  | FromFile jsval
  | ReadFile jsval
  | Unlink jsval
  | NewImportFile jsval

text \<open>
  How a step ends: with a result, with a failure holding the errors that occurred, or
  not at all.
\<close>

datatype 'a outcome = Done 'a | Failed "jserror list" | Hangs

type_synonym 'a step = "event list \<times> 'a outcome"

text \<open>Modelled from the spec: the task composition of the package \<open>odyssey\<close>
  (\<open>Athena.waterfall\<close>, \<open>Athena.parallel\<close>, \<open>Athena.map\<close>), which is not part of the
  sources. A waterfall runs its steps in sequence, each receiving the result of the one
  before; the first failure ends it and the remaining steps do not run. Parallel tasks
  are all started, and the step succeeds only if every one of them does.
\<close>

definition andThen :: "'a step \<Rightarrow> ('a \<Rightarrow> 'b step) \<Rightarrow> 'b step" where
  "andThen s f =
    (case s of
       (es, Done a) \<Rightarrow> (case f a of (es', r) \<Rightarrow> (es @ es', r))
     | (es, Failed e) \<Rightarrow> (es, Failed e)
     | (es, Hangs) \<Rightarrow> (es, Hangs))"

definition parallel :: "('a \<Rightarrow> event) \<Rightarrow> ('a \<Rightarrow> jserror option) \<Rightarrow> 'a list \<Rightarrow> unit step" where
  "parallel ev task xs =
    (map ev xs,
     case List.map_filter task xs of
       [] \<Rightarrow> Done ()
     | e # es \<Rightarrow> Failed (e # es))"

definition tempFile :: "env \<Rightarrow> bcp \<Rightarrow> string" where
  "tempFile env b =
    (let base = numberToString (int (getTime env)) @ ''_''
                @ numberToString (int (randomInt env)) @ ''_''
                @ numberToString (int (processPid env))
     in pathJoin env (tmp b) base)"

text \<open>
  An options object is the list of its own properties. The overrides a caller passes are
  a map from keys to values, or \<open>None\<close> when the argument is left out (or \<open>null\<close>);
  \<open>i in overrides\<close> asks whether the key is there.
\<close>

type_synonym options = "(string \<times> jsval) list"

definition getProp :: "options \<Rightarrow> string \<Rightarrow> jsval" where
  "getProp obj k = (case map_of obj k of Some v \<Rightarrow> v | None \<Rightarrow> JUndefined)"

definition mergeOptions :: "options \<Rightarrow> (string \<rightharpoonup> jsval) option \<Rightarrow> options" where
  "mergeOptions defaults overrides =
    (case overrides of
       None \<Rightarrow> defaults
     | Some ov \<Rightarrow>
         map (\<lambda>(i, v). (i, case ov i of Some v' \<Rightarrow> v' | None \<Rightarrow> v)) defaults)"

definition ensureDirectories :: "env \<Rightarrow> jsval list \<Rightarrow> unit step" where
  "ensureDirectories env paths =
    (let dirs = foldl (\<lambda>dirs p. let d = parentDir env p
                                 in if d \<notin> set dirs then dirs @ [d] else dirs) [] paths
     in parallel MkDir (mkdirp env) dirs)"

definition formatGenerate :: "env \<Rightarrow> bcp \<Rightarrow> string \<Rightarrow> jsval \<Rightarrow> arg list \<Rightarrow> format step" where
  "formatGenerate env b table file args =
    (let cmd = exec b @ '' '' @ table @ '' format nul -x -f '' @ jsonText file @ '' ''
               @ joinWith '' '' (map argText args)
     in case childExec env cmd (timeout b) (killSignal b) of
          Inl e \<Rightarrow> ([Exec cmd], Failed [e])
        | Inr out \<Rightarrow>
            (case fromFile env file of
               Inl e \<Rightarrow> ([Exec cmd, FromFile file], Failed [e])
             | Inr f \<Rightarrow> ([Exec cmd, FromFile file], Done f)))"

definition readExport :: "env \<Rightarrow> jsval \<Rightarrow> format \<Rightarrow> row list step" where
  "readExport env file fmt =
    ([ReadFile file],
     case readFile env file (encoding fmt) of
       Inl e \<Rightarrow> Failed [e]
     | Inr data \<Rightarrow>
         (case readRows data (fields' fmt) of
            None \<Rightarrow> Hangs
          | Some rows \<Rightarrow> Done rows))"

text \<open>
  The regular expression \<open>/(\d+) rows copied\./\<close>: \<open>rowsCopiedAt\<close> matches it at the
  head of a string and gives the digits of the group, \<open>matchRowsCopied\<close> gives the group
  of the leftmost match. \<open>digitsValue\<close> is \<open>Number\<close> of a string of digits.
\<close>

definition isDigit :: "char \<Rightarrow> bool" where
  "isDigit c \<longleftrightarrow> c \<in> set ''0123456789''"

definition rowsCopiedAt :: "string \<Rightarrow> string option" where
  "rowsCopiedAt s =
    (let ds = takeWhile isDigit s; r = dropWhile isDigit s
     in if ds \<noteq> [] \<and> take 13 r = '' rows copied.'' then Some ds else None)"

fun matchRowsCopied :: "string \<Rightarrow> string option" where
  "matchRowsCopied [] = None"
| "matchRowsCopied (c # cs) =
    (case rowsCopiedAt (c # cs) of
       Some ds \<Rightarrow> Some ds
     | None \<Rightarrow> matchRowsCopied cs)"

definition digitsValue :: "string \<Rightarrow> nat" where
  "digitsValue ds = foldl (\<lambda>n c. 10 * n + (of_char c - 48)) 0 ds"

record details =
  formatFile :: jsval
  exportFile :: jsval
  rowCount :: nat
  stdout :: "string option"

text \<open>
  \<open>Bcp.prototype.bulkExport\<close>. The locals \<open>formatFile\<close>, \<open>exportFile\<close> and the
  qualified \<open>table\<close> are \<open>fFile\<close>, \<open>eFile\<close> and \<open>qtable\<close> here; the result holds the
  rows (\<open>None\<close> is \<open>null\<close>) and the details.
\<close>

definition bulkExport ::
  "env \<Rightarrow> bcp \<Rightarrow> string \<Rightarrow> (string \<rightharpoonup> jsval) option \<Rightarrow> (row list option \<times> details) step" where
  "bulkExport env b table overrides =
    (let defaultOptions = [(''read'', JBool True), (''keepFiles'', JBool False)];
         options = mergeOptions defaultOptions overrides;
         options = (if \<not> truthy (getProp options ''read'')
                    then AList.update ''keepFiles'' (JBool True) options else options);
         common = getCommonArgs b False;
         qtable = getQualifiedTable b table;
         base = tempFile env b;
         fFile = jsOr (getProp options ''formatFile'') (JStr (base @ ''_format.xml''));
         eFile = jsOr (getProp options ''exportFile'') (JStr (base @ ''_export.dat''));
         details0 = \<lparr>formatFile = fFile, exportFile = eFile, rowCount = 0, stdout = None\<rparr>
     in andThen (ensureDirectories env [fFile, eFile]) (\<lambda>_.
        andThen (formatGenerate env b qtable fFile common) (\<lambda>fmt.
        andThen
          (let cmd = exec b @ '' '' @ qtable @ '' out '' @ jsonText eFile @ '' ''
                     @ joinWith '' '' (map argText common)
           in ([Exec cmd],
               case childExec env cmd (timeout b) (killSignal b) of
                 Inl e \<Rightarrow> Failed [e]
               | Inr out \<Rightarrow> Done out)) (\<lambda>out.
        let details1 = details0\<lparr>stdout := Some out\<rparr>;
            details2 = (case matchRowsCopied out of
                          Some ds \<Rightarrow> details1\<lparr>rowCount := digitsValue ds\<rparr>
                        | None \<Rightarrow> details1)
        in
        andThen
          (if truthy (getProp options ''read'')
           then andThen (readExport env eFile fmt) (\<lambda>rows. ([], Done (Some rows)))
           else ([], Done None)) (\<lambda>rows.
        andThen
          (if truthy (getProp options ''keepFiles'') then ([], Done ())
           else parallel Unlink (unlink env) [fFile, eFile]) (\<lambda>_.
        ([], Done (rows, details2))))))))"

text \<open>Modelled from the spec: the import file handle of \<open>./ImportFile\<close>, which is not
  part of the sources. The handle is opaque; it holds what the constructor is given: the owning
  configuration, the format, the table name, the destination path and the byte encoding.
\<close>

datatype importFile = ImportFile bcp format string jsval string

text \<open>
  The loop over the requested columns in the third step of \<open>prepareBulkInsert\<close>:
  \<open>origFieldNames\<close> holds the lower-cased field names as they were before the loop, and
  the fields are renamed in place.
\<close>

fun checkColumns :: "string \<Rightarrow> string list \<Rightarrow> string list \<Rightarrow> field list \<Rightarrow> jserror + field list" where
  "checkColumns fullTable origFieldNames [] fs = Inr fs"
| "checkColumns fullTable origFieldNames (c # cs) fs =
    (case arrayIndexOf origFieldNames (toLowerCase c) of
       None \<Rightarrow> Inl (Error (fullTable @ '' does not contain column '' @ c))
     | Some dex \<Rightarrow>
         checkColumns fullTable origFieldNames cs
           (fs[dex := (fs ! dex)\<lparr>name := c, inImport := True\<rparr>]))"

definition prepareBulkInsert ::
  "env \<Rightarrow> bcp \<Rightarrow> string \<Rightarrow> string list \<Rightarrow> (string \<rightharpoonup> jsval) option \<Rightarrow> importFile step" where
  "prepareBulkInsert env b table columns overrides =
    (let base = tempFile env b;
         defaultOptions = [(''formatFile'', JStr (base @ ''_format.xml'')),
                           (''importFile'', JStr (base @ ''_import.dat''))];
         options = mergeOptions defaultOptions overrides;
         common = getCommonArgs b False;
         fullTable = getQualifiedTable b table
     in andThen (ensureDirectories env [getProp options ''formatFile'', getProp options ''importFile'']) (\<lambda>_.
        andThen (formatGenerate env b fullTable (getProp options ''formatFile'') common) (\<lambda>fmt.
          case checkColumns fullTable (map (\<lambda>f. toLowerCase (name f)) (fields' fmt)) columns (fields' fmt) of
            Inl e \<Rightarrow> ([], Failed [e])
          | Inr fs \<Rightarrow>
              ([NewImportFile (getProp options ''importFile'')],
               Done (ImportFile b (fmt\<lparr>fields' := fs\<rparr>) table (getProp options ''importFile'')
                      (if unicode b then ''ucs2'' else ''ascii''))))))"

section \<open>Definitions used to state the properties\<close>

text \<open>
  The layout of a data file, in the words of the specification: a row is its field values
  in the order of the format, each followed by the terminator of its field.
  \<open>terminatedBy v t\<close> says that the terminator \<open>t\<close> does not begin inside the value \<open>v\<close>
  when \<open>t\<close> is written behind it, so that the first \<open>t\<close> found is the one that ends the
  field. \<open>rowObject\<close> is the row a list of raw values decodes to.
\<close>

definition terminatedBy :: "string \<Rightarrow> string \<Rightarrow> bool" where
  "terminatedBy v t \<longleftrightarrow> list_all (\<lambda>k. \<not> occursAt (v @ t) t k) [0..<length v]"

fun rowBytes :: "field list \<Rightarrow> string list \<Rightarrow> string" where
  "rowBytes (f # fs) (v # vs) = v @ terminator f @ rowBytes fs vs"
| "rowBytes _ _ = []"

fun wellDelimited :: "field list \<Rightarrow> string list \<Rightarrow> bool" where
  "wellDelimited [] [] = True"
| "wellDelimited (f # fs) (v # vs) = (terminatedBy v (terminator f) \<and> wellDelimited fs vs)"
| "wellDelimited _ _ = False"

fun rowObject :: "row \<Rightarrow> field list \<Rightarrow> string list \<Rightarrow> row" where
  "rowObject obj (f # fs) (v # vs) =
     rowObject (setProperty obj (name f) (fieldDeserialize v f)) fs vs"
| "rowObject obj _ _ = obj"

text \<open>
  An option of the configuration is set when it holds a value that counts as true: a
  non-empty string, a number other than zero. \<open>strOf\<close> and \<open>numOf\<close> read the value of
  a set option.
\<close>

definition optSet :: "string option \<Rightarrow> bool" where
  "optSet x \<longleftrightarrow> (case x of Some s \<Rightarrow> s \<noteq> [] | None \<Rightarrow> False)"

definition numSet :: "int option \<Rightarrow> bool" where
  "numSet x \<longleftrightarrow> (case x of Some n \<Rightarrow> n \<noteq> 0 | None \<Rightarrow> False)"

definition strOf :: "string option \<Rightarrow> string" where
  "strOf x = (case x of Some s \<Rightarrow> s | None \<Rightarrow> [])"

definition numOf :: "int option \<Rightarrow> int" where
  "numOf x = (case x of Some n \<Rightarrow> n | None \<Rightarrow> 0)"

text \<open>
  The hints in the fixed order of the specification, each with the condition under which
  it applies.
\<close>

definition hintTable :: "bcp \<Rightarrow> (bool \<times> string) list" where
  "hintTable b =
    [(optSet (order b), ''ORDER('' @ strOf (order b) @ '')''),
     (numSet (rowsPerBatch b), ''ROWS_PER_BATCH='' @ numberToString (numOf (rowsPerBatch b))),
     (numSet (kbPerBatch b), ''KILOBYTES_PER_BATCH='' @ numberToString (numOf (kbPerBatch b))),
     (tabLock b, ''TABLOCK''),
     (checkConstraints b, ''CHECK_CONSTRAINTS''),
     (fireTriggers b, ''FIRE_TRIGGERS'')]"

text \<open>A terminator that begins with \<open>-\<close> or \<open>/\<close>.\<close>

definition dashed :: "string \<Rightarrow> bool" where
  "dashed t \<longleftrightarrow> take 1 t = ''-'' \<or> take 1 t = ''/''"

text \<open>
  The options of \<open>bulkExport\<close> as the specification describes them: results are read back
  unless \<open>read\<close> is overridden with a value that counts as false, and files are kept when
  \<open>read\<close> is off or \<open>keepFiles\<close> is overridden with a value that counts as true. The two
  paths and the command line of the export step are named for the statements below.
\<close>

definition readOn :: "(string \<rightharpoonup> jsval) option \<Rightarrow> bool" where
  "readOn ov =
    (case ov of
       None \<Rightarrow> True
     | Some m \<Rightarrow> (case m ''read'' of None \<Rightarrow> True | Some v \<Rightarrow> truthy v))"

definition keepOn :: "(string \<rightharpoonup> jsval) option \<Rightarrow> bool" where
  "keepOn ov \<longleftrightarrow>
     \<not> readOn ov \<or>
     (case ov of
        None \<Rightarrow> False
      | Some m \<Rightarrow> (case m ''keepFiles'' of None \<Rightarrow> False | Some v \<Rightarrow> truthy v))"

definition formatPath :: "env \<Rightarrow> bcp \<Rightarrow> jsval" where
  "formatPath env b = JStr (tempFile env b @ ''_format.xml'')"

definition exportPath :: "env \<Rightarrow> bcp \<Rightarrow> jsval" where
  "exportPath env b = JStr (tempFile env b @ ''_export.dat'')"

definition exportCommand :: "env \<Rightarrow> bcp \<Rightarrow> string \<Rightarrow> string" where
  "exportCommand env b table =
     exec b @ '' '' @ getQualifiedTable b table @ '' out '' @ jsonText (exportPath env b) @ '' ''
     @ joinWith '' '' (map argText (getCommonArgs b False))"

subsection \<open>Example inputs\<close>

text \<open>
  The format of the scenario in the specification: an integer field ended by a tab and a
  bit field ended by a line feed.
\<close>

definition exFields :: "field list" where
  "exFields =
    [\<lparr>name = ''f0'', type = ''SQLINT'', terminator = [CHR 0x09], inImport = False\<rparr>,
     \<lparr>name = ''f1'', type = ''SQLBIT'', terminator = [CHR 0x0A], inImport = False\<rparr>]"

definition exFormat :: format where
  "exFormat = \<lparr>fields' = exFields, encoding = ''ascii'', filename = ''/tmp/1_2_3_format.xml''\<rparr>"

text \<open>
  A configuration with a trusted connection and ASCII data, and one that also sets
  terminators, credentials and hints.
\<close>

definition exBcp :: bcp where
  "exBcp =
    \<lparr>exec = ''bcp'', timeout = 0, killSignal = ''SIGTERM'', tmp = ''/tmp'',
     database = None, schema = Some ''dbo'', packetSize = None, batchSize = None,
     unicode = False, codePage = None, errorFile = None, useIdentity = False,
     firstRow = None, order = None, rowsPerBatch = None, kbPerBatch = None,
     tabLock = False, checkConstraints = False, fireTriggers = False, inputFile = None,
     keepNulls = False, readOnly = False, lastRow = None, maxErrors = None,
     password = None, quotedIdentifiers = False, rowTerminator = None, regional = False,
     server = None, fieldTerminator = None, trusted = True, user = None\<rparr>"

definition exBcpFull :: bcp where
  "exBcpFull =
    exBcp\<lparr>rowTerminator := Some ''-x'', fieldTerminator := Some ''|'',
           user := Some ''sa'', password := Some ''pw'',
           order := Some ''id ASC'', rowsPerBatch := Some 10,
           tabLock := True, fireTriggers := True\<rparr>"

text \<open>
  An environment in which every call succeeds: the tool prints no summary line, the
  format file holds the format above, and the data file holds one full row and a second
  row that lacks its last terminator.
\<close>

definition exEnv :: env where
  "exEnv =
    \<lparr>getTime = 1, randomInt = 2, processPid = 3,
     pathJoin = (\<lambda>a b. a @ ''/'' @ b),
     parentDir = (\<lambda>p. ''/tmp''),
     mkdirp = (\<lambda>d. None),
     unlink = (\<lambda>p. None),
     readFile = (\<lambda>p e. Inr (''42'' @ [CHR 0x09] @ ''1'' @ [CHR 0x0A] @ ''7'' @ [CHR 0x09] @ ''0'')),
     childExec = (\<lambda>c t k. Inr ''Starting copy...''),
     fromFile = (\<lambda>p. Inr exFormat)\<rparr>"

text \<open>
  A format whose first terminator is the empty string and whose second is \<open>|\<close>.
\<close>

definition exMixed :: "field list" where
  "exMixed =
    [\<lparr>name = ''a'', type = ''SQLCHAR'', terminator = [], inImport = False\<rparr>,
     \<lparr>name = ''b'', type = ''SQLCHAR'', terminator = ''|'', inImport = False\<rparr>]"

text \<open>
  The environment above with a file system that refuses every deletion, and with a
  format file that lists no field.
\<close>

definition exEnvUnlinkFails :: env where
  "exEnvUnlinkFails = exEnv\<lparr>unlink := (\<lambda>p. Some (Error ''EPERM''))\<rparr>"

definition exEnvNoFields :: env where
  "exEnvNoFields = exEnv\<lparr>fromFile := (\<lambda>p. Inr (exFormat\<lparr>fields' := []\<rparr>))\<rparr>"

section \<open>Properties of the field codec\<close>

text \<open>
  Claim C6. For every raw string and field, \<open>fieldDeserialize\<close> returns: null for the
  empty string; the empty string for the string that is one NUL; otherwise, by the type
  tag of the field, the date parsed from the string for the three date tags, the number
  parsed from it for the six numeric tags, for \<open>SQLBIT\<close> the boolean that is true exactly
  when the string is \<open>"1"\<close>, and the raw string for every other tag.
\<close>

theorem fieldDeserialize_cases:
  "fieldDeserialize v f =
    (if v = [] then DNull
     else if v = [CHR 0x00] then DString []
     else if type f \<in> {''SQLDATETIME'', ''SQLDATETIM4'', ''SQLDATETIM8''} then DateOf v
     else if type f \<in> {''SQLTINYINT'', ''SQLSMALLINT'', ''SQLINT'', ''SQLBIGINT'',
                        ''SQLFLT4'', ''SQLFLT8''} then NumberOf v
     else if type f = ''SQLBIT'' then DBoolean (v = ''1'')
     else DString v)"
  by (simp add: fieldDeserialize_def typesMap_def NUL_def)

section \<open>Properties of the reader\<close>

subsection \<open>Searching\<close>

lemma find_upt_Some_iff:
  "find P [a..<b] = Some k \<longleftrightarrow> a \<le> k \<and> k < b \<and> P k \<and> (\<forall>j. a \<le> j \<and> j < k \<longrightarrow> \<not> P j)"
  (is "?L = ?R")
proof
  assume ?L
  then obtain n where n: "n < length [a..<b]" "P ([a..<b] ! n)" "k = [a..<b] ! n"
      and least: "\<And>j. j < n \<Longrightarrow> \<not> P ([a..<b] ! j)"
    unfolding find_Some_iff by blast
  from n(1) have nb: "a + n < b" by simp
  then have k: "k = a + n" using n(3) by simp
  have "\<not> P j" if "a \<le> j" "j < k" for j
  proof -
    from that k have jn: "j - a < n" by arith
    from that nb k have "[a..<b] ! (j - a) = j" by simp
    with least[OF jn] show ?thesis by simp
  qed
  with n(2) nb k show ?R by simp
next
  assume R: ?R
  let ?n = "k - a"
  from R have 1: "?n < length [a..<b]" by simp arith
  from R have 2: "[a..<b] ! ?n = k" by simp
  have 3: "\<forall>j<?n. \<not> P ([a..<b] ! j)"
  proof (intro allI impI)
    fix j assume "j < ?n"
    with R have lt: "a + j < b" "a + j < k" by arith+
    then have "[a..<b] ! j = a + j" by simp
    with R lt show "\<not> P ([a..<b] ! j)" by simp
  qed
  from R have "P ([a..<b] ! ?n)" using 2 by simp
  with 1 2 3 show ?L unfolding find_Some_iff by (intro exI[of _ ?n]) simp
qed

lemma indexOf_Some_iff:
  "indexOf s t pos = Some k \<longleftrightarrow>
     min pos (length s) \<le> k \<and> occursAt s t k
     \<and> (\<forall>j. min pos (length s) \<le> j \<and> j < k \<longrightarrow> \<not> occursAt s t j)"
  unfolding indexOf_def find_upt_Some_iff by (auto simp: occursAt_def)

lemma indexOf_None_iff:
  "indexOf s t pos = None \<longleftrightarrow> (\<forall>k. min pos (length s) \<le> k \<longrightarrow> \<not> occursAt s t k)"
  unfolding indexOf_def find_None_iff
  by (auto simp: occursAt_def simp del: upt_Suc)

lemma indexOf_empty: "indexOf s [] pos = Some (min pos (length s))"
  unfolding indexOf_Some_iff by (auto simp: occursAt_def)

lemma indexOf_bounds:
  "indexOf s t pos = Some k \<Longrightarrow> min pos (length s) \<le> k \<and> k + length t \<le> length s"
  by (simp add: indexOf_Some_iff occursAt_def)

lemma occursAt_shift: "occursAt (pre @ s) t (length pre + k) = occursAt s t k"
  by (simp add: occursAt_def)

lemma occursAt_inside:
  "k + length t \<le> length s \<Longrightarrow> occursAt (s @ post) t k = occursAt s t k"
  by (auto simp: occursAt_def)

lemma indexOf_terminated:
  assumes "terminatedBy v t"
  shows "indexOf (pre @ v @ t @ post) t (length pre) = Some (length pre + length v)"
proof -
  have here: "occursAt (pre @ v @ t @ post) t (length pre + length v)"
    by (simp add: occursAt_def)
  have "\<not> occursAt (pre @ v @ t @ post) t j" if "length pre \<le> j" "j < length pre + length v" for j
  proof -
    from that obtain m where m: "j = length pre + m" "m < length v"
      by (metis add_less_cancel_left le_Suc_ex)
    from assms m(2) have "\<not> occursAt (v @ t) t m"
      by (simp add: terminatedBy_def list_all_iff)
    moreover from m(2) have "occursAt ((v @ t) @ post) t m = occursAt (v @ t) t m"
      by (intro occursAt_inside) simp
    ultimately show ?thesis using occursAt_shift[of pre "v @ t @ post" t m] m(1) by simp
  qed
  with here show ?thesis unfolding indexOf_Some_iff by simp
qed

lemma indexOf_missing:
  assumes "indexOf rest t 0 = None"
  shows "indexOf (pre @ rest) t (length pre) = None"
proof -
  have "\<not> occursAt (pre @ rest) t k" if "length pre \<le> k" for k
  proof -
    from that obtain m where "k = length pre + m" by (metis le_Suc_ex)
    with assms occursAt_shift[of pre rest t m] show ?thesis
      by (simp add: indexOf_None_iff)
  qed
  then show ?thesis by (simp add: indexOf_None_iff)
qed

lemma substring_middle: "substring (pre @ v @ post) (length pre) (length pre + length v) = v"
  by (simp add: substring_def Let_def min_def max_def)

subsection \<open>The loop over the fields\<close>

lemma fieldLoop_bounds:
  "fieldLoop data fs i obj = Some (i', obj') \<Longrightarrow> i \<le> length data \<Longrightarrow>
     i \<le> i' \<and> i' \<le> length data"
proof (induction fs arbitrary: i obj)
  case Nil
  then show ?case by simp
next
  case (Cons f fs)
  from Cons.prems(1) obtain dex where dex: "indexOf data (terminator f) i = Some dex"
    and rest: "fieldLoop data fs (dex + length (terminator f))
        (setProperty obj (name f) (fieldDeserialize (substring data i dex) f)) = Some (i', obj')"
    by (auto simp: Let_def split: option.splits)
  from indexOf_bounds[OF dex] Cons.prems(2)
  have b: "i \<le> dex" "dex + length (terminator f) \<le> length data" by simp_all
  from Cons.IH[OF rest b(2)] b show ?case by simp
qed

lemma fieldLoop_advances:
  "fieldLoop data fs i obj = Some (i', obj') \<Longrightarrow> i \<le> length data \<Longrightarrow>
     \<exists>f\<in>set fs. terminator f \<noteq> [] \<Longrightarrow> i < i'"
proof (induction fs arbitrary: i obj)
  case Nil
  then show ?case by simp
next
  case (Cons f fs)
  from Cons.prems(1) obtain dex where dex: "indexOf data (terminator f) i = Some dex"
    and rest: "fieldLoop data fs (dex + length (terminator f))
        (setProperty obj (name f) (fieldDeserialize (substring data i dex) f)) = Some (i', obj')"
    by (auto simp: Let_def split: option.splits)
  from indexOf_bounds[OF dex] Cons.prems(2)
  have b: "i \<le> dex" "dex + length (terminator f) \<le> length data" by simp_all
  show ?case
  proof (cases "terminator f = []")
    case True
    with Cons.prems(3) have "\<exists>f\<in>set fs. terminator f \<noteq> []" by simp
    from Cons.IH[OF rest b(2) this] b show ?thesis by simp
  next
    case False
    then have "0 < length (terminator f)" by simp
    with fieldLoop_bounds[OF rest b(2)] b show ?thesis by arith
  qed
qed

lemma fieldLoop_stuck:
  "\<forall>f\<in>set fs. terminator f = [] \<Longrightarrow> i \<le> length data \<Longrightarrow>
     \<exists>obj'. fieldLoop data fs i obj = Some (i, obj')"
  by (induction fs arbitrary: obj) (simp_all add: indexOf_empty min_def)

lemma fieldLoop_row:
  "wellDelimited fs vs \<Longrightarrow>
   fieldLoop (pre @ rowBytes fs vs @ post) fs (length pre) obj =
     Some (length pre + length (rowBytes fs vs), rowObject obj fs vs)"
proof (induction fs vs arbitrary: pre obj rule: wellDelimited.induct)
  case 1
  then show ?case by simp
next
  case (2 f fs v vs)
  let ?t = "terminator f"
  from "2.prems" have tb: "terminatedBy v ?t" and wd: "wellDelimited fs vs" by simp_all
  have dex: "indexOf (pre @ v @ ?t @ rowBytes fs vs @ post) ?t (length pre) = Some (length pre + length v)"
    by (rule indexOf_terminated[OF tb])
  have sub: "substring (pre @ v @ ?t @ rowBytes fs vs @ post) (length pre) (length pre + length v) = v"
    by (rule substring_middle)
  from "2.IH"[OF wd, of "pre @ v @ ?t"] dex sub show ?case
    by (simp add: Let_def add.assoc)
qed simp_all

lemma wellDelimited_Nil: "wellDelimited [] ws \<longleftrightarrow> ws = []"
  by (cases ws) simp_all

lemma wellDelimited_Cons:
  "wellDelimited (f # fs) ws \<longleftrightarrow>
     (\<exists>v vs. ws = v # vs \<and> terminatedBy v (terminator f) \<and> wellDelimited fs vs)"
  by (cases ws) simp_all

lemma fieldLoop_truncated:
  "wellDelimited fs1 ws \<Longrightarrow> indexOf rest (terminator f) 0 = None \<Longrightarrow>
   fieldLoop (pre @ rowBytes fs1 ws @ rest) (fs1 @ f # fs2) (length pre) obj = None"
proof (induction fs1 arbitrary: ws pre obj)
  case Nil
  then show ?case by (simp add: wellDelimited_Nil indexOf_missing)
next
  case (Cons g fs1)
  from Cons.prems(1) obtain v vs where ws: "ws = v # vs"
    and tb: "terminatedBy v (terminator g)" and wd: "wellDelimited fs1 vs"
    by (auto simp: wellDelimited_Cons)
  have dex: "indexOf (pre @ v @ terminator g @ rowBytes fs1 vs @ rest) (terminator g) (length pre)
      = Some (length pre + length v)"
    by (rule indexOf_terminated[OF tb])
  from Cons.IH[OF wd Cons.prems(2), of "pre @ v @ terminator g"] dex ws show ?case
    by (simp add: Let_def add.assoc)
qed

lemma rowBytes_nonempty:
  "wellDelimited fs vs \<Longrightarrow> \<exists>f\<in>set fs. terminator f \<noteq> [] \<Longrightarrow> rowBytes fs vs \<noteq> []"
  by (induction fs vs rule: wellDelimited.induct) auto

subsection \<open>The loop over the rows\<close>

lemma data_loop_returns:
  assumes "\<exists>f\<in>set fs. terminator f \<noteq> []"
  shows "\<exists>r. data_loop data fs i rows = Some r"
proof (induction "length data - i" arbitrary: i rows rule: less_induct)
  case less
  show ?case
  proof (cases "i < length data")
    case False
    then show ?thesis by (simp add: data_loop.simps)
  next
    case True
    show ?thesis
    proof (cases "fieldLoop data fs i []")
      case None
      with True show ?thesis by (simp add: data_loop.simps)
    next
      case (Some p)
      obtain i' obj where p: "p = (i', obj)" by (cases p)
      from Some p True fieldLoop_advances[of data fs i "[]" i' obj] assms
      have "i < i'" by simp
      with True have "length data - i' < length data - i" by arith
      from less[OF this] obtain r where "data_loop data fs i' (rows @ [obj]) = Some r" by blast
      with True Some p show ?thesis by (subst data_loop.simps) simp
    qed
  qed
qed

lemma data_loop_diverges:
  assumes "data_loop data fs i rows = Some r"
  shows "\<not> ((\<forall>f\<in>set fs. terminator f = []) \<and> i < length data)"
proof (rule data_loop.raw_induct
    [where P = "\<lambda>data fs i rows r. \<not> ((\<forall>f\<in>set fs. terminator f = []) \<and> i < length data)",
      OF _ assms])
  fix loop :: "string \<Rightarrow> field list \<Rightarrow> nat \<Rightarrow> row list \<Rightarrow> row list option"
    and data fs i rows r
  assume IH: "\<And>data fs i rows r. loop data fs i rows = Some r \<Longrightarrow>
      \<not> ((\<forall>f\<in>set fs. terminator f = []) \<and> i < length data)"
    and body: "(if i < length data then
       (case fieldLoop data fs i [] of
          None \<Rightarrow> Some rows
        | Some (i', obj) \<Rightarrow> loop data fs i' (rows @ [obj]))
     else Some rows) = Some r"
  show "\<not> ((\<forall>f\<in>set fs. terminator f = []) \<and> i < length data)"
  proof
    assume a: "(\<forall>f\<in>set fs. terminator f = []) \<and> i < length data"
    then obtain obj where "fieldLoop data fs i [] = Some (i, obj)"
      using fieldLoop_stuck[of fs i data "[]"] by auto
    with a body have "loop data fs i (rows @ [obj]) = Some r" by simp
    from IH[OF this] a show False by blast
  qed
qed

text \<open>The exact condition under which the reader returns.\<close>

lemma readRows_returns_iff:
  "(\<exists>rows. readRows data fs = Some rows) \<longleftrightarrow> data = [] \<or> (\<exists>f\<in>set fs. terminator f \<noteq> [])"
proof
  assume "\<exists>rows. readRows data fs = Some rows"
  then obtain rows where "data_loop data fs 0 [] = Some rows" by (auto simp: readRows_def)
  from data_loop_diverges[OF this] show "data = [] \<or> (\<exists>f\<in>set fs. terminator f \<noteq> [])" by auto
next
  assume "data = [] \<or> (\<exists>f\<in>set fs. terminator f \<noteq> [])"
  then show "\<exists>rows. readRows data fs = Some rows"
  proof
    assume "data = []"
    then show ?thesis by (simp add: readRows_def data_loop.simps)
  next
    assume "\<exists>f\<in>set fs. terminator f \<noteq> []"
    from data_loop_returns[OF this] show ?thesis by (simp add: readRows_def)
  qed
qed

lemma data_loop_rows:
  assumes fs: "fs = fs1 @ f # fs2"
    and tail: "wellDelimited fs1 ws" "indexOf rest (terminator f) 0 = None"
  shows "\<forall>vs\<in>set vrows. wellDelimited fs vs \<Longrightarrow>
    data_loop (pre @ concat (map (rowBytes fs) vrows) @ rowBytes fs1 ws @ rest) fs (length pre) rows
      = Some (rows @ map (rowObject [] fs) vrows)"
proof (induction vrows arbitrary: pre rows)
  case Nil
  from fieldLoop_truncated[OF tail, of pre fs2 "[]"] fs show ?case
    by (subst data_loop.simps) simp
next
  case (Cons vs vrows)
  let ?tl = "concat (map (rowBytes fs) vrows) @ rowBytes fs1 ws @ rest"
  from Cons.prems have wd: "wellDelimited fs vs" and rest: "\<forall>vs\<in>set vrows. wellDelimited fs vs"
    by simp_all
  from tail(2) have "terminator f \<noteq> []" by (auto simp: indexOf_empty)
  with fs have "\<exists>f\<in>set fs. terminator f \<noteq> []" by auto
  from rowBytes_nonempty[OF wd this] have ne: "rowBytes fs vs \<noteq> []" .
  have step: "fieldLoop (pre @ rowBytes fs vs @ ?tl) fs (length pre) [] =
      Some (length pre + length (rowBytes fs vs), rowObject [] fs vs)"
    by (rule fieldLoop_row[OF wd])
  from Cons.IH[OF rest, of "pre @ rowBytes fs vs" "rows @ [rowObject [] fs vs]"]
  have "data_loop (pre @ rowBytes fs vs @ ?tl) fs (length pre + length (rowBytes fs vs))
      (rows @ [rowObject [] fs vs]) = Some (rows @ rowObject [] fs vs # map (rowObject [] fs) vrows)"
    by simp
  with step ne show ?case
    by (subst data_loop.simps) simp
qed

lemma readRows_rows:
  assumes "\<forall>vs\<in>set vrows. wellDelimited fs vs"
    and "fs = fs1 @ f # fs2" and "wellDelimited fs1 ws" and "indexOf rest (terminator f) 0 = None"
  shows "readRows (concat (map (rowBytes fs) vrows) @ rowBytes fs1 ws @ rest) fs
      = Some (map (rowObject [] fs) vrows)"
  using data_loop_rows[OF assms(2,3,4,1), of "[]" "[]"] by (simp add: readRows_def)

text \<open>
  The scenario of the specification: the bytes \<open>42\<close>, tab, \<open>1\<close>, line feed, \<open>7\<close>, tab, \<open>0\<close>,
  line feed decode to two rows.
\<close>

lemma readRows_scenario:
  "readRows (''42'' @ [CHR 0x09] @ ''1'' @ [CHR 0x0A] @ ''7'' @ [CHR 0x09] @ ''0'' @ [CHR 0x0A]) exFields
     = Some [[(''f0'', NumberOf ''42''), (''f1'', DBoolean True)],
             [(''f0'', NumberOf ''7''), (''f1'', DBoolean False)]]"
  by code_simp

text \<open>
  Claim C8, as stated, fails: the condition that the field list is not empty and every
  terminator is a non-empty string is not necessary for the loop to return. The format
  below has an empty first terminator, and the reader returns on every buffer; on the
  buffer \<open>x|y|z\<close> it returns two rows.
\<close>

theorem readRows_mixed_terminators_return:
  "terminator (hd exMixed) = []
   \<and> (\<forall>data. \<exists>rows. readRows data exMixed = Some rows)
   \<and> readRows ''x|y|z'' exMixed =
       Some [[(''a'', DNull), (''b'', DString ''x'')], [(''a'', DNull), (''b'', DString ''y'')]]"
proof (intro conjI allI)
  show "terminator (hd exMixed) = []" by (simp add: exMixed_def)
  have "\<exists>f\<in>set exMixed. terminator f \<noteq> []" by (simp add: exMixed_def)
  then show "\<exists>rows. readRows data exMixed = Some rows" for data
    by (simp add: readRows_returns_iff)
  show "readRows ''x|y|z'' exMixed =
       Some [[(''a'', DNull), (''b'', DString ''x'')], [(''a'', DNull), (''b'', DString ''y'')]]"
    by code_simp
qed

text \<open>
  Claim C8, amended. The scan loop of the reader returns on a buffer exactly when the
  buffer is empty or at least one field has a non-empty terminator. So it returns on
  every buffer when the field list is not empty and every terminator is a non-empty
  string; and with an empty field list, or with all terminators empty, on a non-empty
  buffer a pass over the fields leaves the scan offset where it was, at every offset
  inside the buffer, and the loop does not return.
\<close>

theorem readRows_termination:
  "((\<exists>rows. readRows data fs = Some rows) \<longleftrightarrow> data = [] \<or> (\<exists>f\<in>set fs. terminator f \<noteq> []))
   \<and> (fs \<noteq> [] \<and> (\<forall>f\<in>set fs. terminator f \<noteq> []) \<longrightarrow> (\<exists>rows. readRows data fs = Some rows))
   \<and> (data \<noteq> [] \<and> (fs = [] \<or> (\<forall>f\<in>set fs. terminator f = [])) \<longrightarrow>
        (\<forall>i<length data. \<exists>obj. fieldLoop data fs i [] = Some (i, obj))
        \<and> readRows data fs = None)"
proof (intro conjI impI)
  show "(\<exists>rows. readRows data fs = Some rows) \<longleftrightarrow> data = [] \<or> (\<exists>f\<in>set fs. terminator f \<noteq> [])"
    by (rule readRows_returns_iff)
next
  assume "fs \<noteq> [] \<and> (\<forall>f\<in>set fs. terminator f \<noteq> [])"
  then have "\<exists>f\<in>set fs. terminator f \<noteq> []" by (cases fs) auto
  then show "\<exists>rows. readRows data fs = Some rows" by (simp add: readRows_returns_iff)
next
  assume a: "data \<noteq> [] \<and> (fs = [] \<or> (\<forall>f\<in>set fs. terminator f = []))"
  then have all: "\<forall>f\<in>set fs. terminator f = []" by auto
  show "\<forall>i<length data. \<exists>obj. fieldLoop data fs i [] = Some (i, obj)"
    using fieldLoop_stuck[OF all] by simp
  from a all have "\<not> (\<exists>rows. readRows data fs = Some rows)"
    unfolding readRows_returns_iff by simp
  then show "readRows data fs = None" by simp
qed

theorem readRows_termination_witness:
  "(\<exists>rows. readRows ''a|'' [\<lparr>name = ''c'', type = ''SQLCHAR'', terminator = ''|'', inImport = False\<rparr>] = Some rows)
   \<and> (\<exists>rows. readRows ''x|y|z'' exMixed = Some rows)
   \<and> readRows ''a'' [] = None
   \<and> readRows ''a'' [\<lparr>name = ''c'', type = ''SQLCHAR'', terminator = [], inImport = False\<rparr>] = None"
  using readRows_termination[of "''a|''" "[\<lparr>name = ''c'', type = ''SQLCHAR'', terminator = ''|'', inImport = False\<rparr>]"]
    readRows_termination[of "''x|y|z''" exMixed]
    readRows_termination[of "''a''" "[]"]
    readRows_termination[of "''a''" "[\<lparr>name = ''c'', type = ''SQLCHAR'', terminator = [], inImport = False\<rparr>]"]
  by (simp add: exMixed_def)

text \<open>
  Claim C5. The reader decodes a buffer row by row and field by field. When the buffer
  consists of rows in which every field is followed by its terminator, and then of a last
  row in which some field lacks its terminator (its earlier fields being terminated), the
  reader returns exactly the rows before that one, as a result and not as an error; when
  there is no row before it, it returns no rows.
\<close>

theorem readExport_truncated_row:
  assumes "readFile env file (encoding fmt) =
             Inr (concat (map (rowBytes (fields' fmt)) vrows) @ rowBytes fs1 ws @ rest)"
    and "\<forall>vs\<in>set vrows. wellDelimited (fields' fmt) vs"
    and "fields' fmt = fs1 @ f # fs2"
    and "wellDelimited fs1 ws"
    and "indexOf rest (terminator f) 0 = None"
  shows "readExport env file fmt = ([ReadFile file], Done (map (rowObject [] (fields' fmt)) vrows))
         \<and> (vrows = [] \<longrightarrow> readExport env file fmt = ([ReadFile file], Done []))"
proof (intro conjI impI)
  from readRows_rows[OF assms(2,3,4,5)] assms(1)
  show main: "readExport env file fmt = ([ReadFile file], Done (map (rowObject [] (fields' fmt)) vrows))"
    by (simp add: readExport_def)
  assume "vrows = []"
  with main show "readExport env file fmt = ([ReadFile file], Done [])" by simp
qed

theorem readExport_truncated_row_witness:
  "readExport exEnv (JStr ''/tmp/1_2_3_export.dat'') exFormat =
     ([ReadFile (JStr ''/tmp/1_2_3_export.dat'')],
      Done [[(''f0'', NumberOf ''42''), (''f1'', DBoolean True)]])"
proof -
  let ?f0 = "\<lparr>name = ''f0'', type = ''SQLINT'', terminator = [CHR 0x09], inImport = False\<rparr>"
  let ?f1 = "\<lparr>name = ''f1'', type = ''SQLBIT'', terminator = [CHR 0x0A], inImport = False\<rparr>"
  have h1: "readFile exEnv (JStr ''/tmp/1_2_3_export.dat'') (encoding exFormat) =
      Inr (concat (map (rowBytes (fields' exFormat)) [[''42'', ''1'']]) @ rowBytes [?f0] [''7''] @ ''0'')"
    by (simp add: exEnv_def exFormat_def exFields_def)
  have h2: "\<forall>vs\<in>set [[''42'', ''1'']]. wellDelimited (fields' exFormat) vs"
    by (simp add: exFormat_def exFields_def terminatedBy_def occursAt_def)
  have h3: "fields' exFormat = [?f0] @ ?f1 # []"
    by (simp add: exFormat_def exFields_def)
  have h4: "wellDelimited [?f0] [''7'']"
    by (simp add: terminatedBy_def occursAt_def)
  have h5: "indexOf ''0'' (terminator ?f1) 0 = None"
    by code_simp
  from readExport_truncated_row[OF h1 h2 h3 h4 h5] show ?thesis
    by (simp add: exFormat_def exFields_def setProperty_def fieldDeserialize_def typesMap_def NUL_def)
qed


section \<open>Properties of the argument builder\<close>

lemma JSON_stringify_neq_flag [simp]:
  "JSON_stringify s \<noteq> CHR ''-'' # cs" "CHR ''-'' # cs \<noteq> JSON_stringify s"
  by (simp_all add: JSON_stringify_def)

lemma mem_numFlag:
  "ArgStr x \<in> set (numFlag flag v) \<longleftrightarrow> x = flag \<and> numSet v"
  by (auto simp: numFlag_def numSet_def split: option.splits)

lemma mem_strFlag:
  "ArgStr x \<in> set (strFlag flag v) \<longleftrightarrow> optSet v \<and> (x = flag \<or> x = JSON_stringify (strOf v))"
  by (cases v) (simp_all add: strFlag_def optSet_def strOf_def)

lemma mem_boolFlag: "ArgStr x \<in> set (boolFlag flag c) \<longleftrightarrow> c \<and> x = flag"
  by (cases c) (simp_all add: boolFlag_def)

lemma mem_termFlag:
  "ArgStr x \<in> set (termFlag flag v) \<longleftrightarrow>
     optSet v \<and> (dashed (strOf v) \<and> x = flag @ strOf v
               \<or> \<not> dashed (strOf v) \<and> (x = flag \<or> x = JSON_stringify (strOf v)))"
proof (cases v)
  case None
  then show ?thesis by (simp add: termFlag_def optSet_def)
next
  case (Some t)
  then show ?thesis
    by (cases t) (simp_all add: termFlag_def optSet_def strOf_def dashed_def)
qed

lemma mem_if:
  "x \<in> set (if c then xs else ys) \<longleftrightarrow> (c \<longrightarrow> x \<in> set xs) \<and> (\<not> c \<longrightarrow> x \<in> set ys)"
  by simp

lemmas mem_args = set_append Un_iff mem_if mem_numFlag mem_strFlag mem_boolFlag mem_termFlag

lemma termFlag_Some:
  "t \<noteq> [] \<Longrightarrow> termFlag flag (Some t) =
     (if dashed t then [ArgStr (flag @ t)] else [ArgStr flag, ArgStr (JSON_stringify t)])"
  by (cases t) (simp_all add: termFlag_def dashed_def)

lemma hints_table: "hints b = map snd (filter fst (hintTable b))"
  by (simp add: hints_def hintTable_def strHint_def numHint_def optSet_def numSet_def
      strOf_def numOf_def split: option.splits)

text \<open>The argument list, cut into the part before the terminators and the parts behind.\<close>

lemma getCommonArgs_segments:
  "getCommonArgs b omit =
     (numFlag ''-a'' (packetSize b)
      @ numFlag ''-b'' (batchSize b)
      @ (if \<not> omit then (if unicode b then [ArgStr ''-w''] else [ArgStr ''-c'']) else [])
      @ (if \<not> omit then strFlag ''-C'' (codePage b) else [])
      @ strFlag ''-e'' (errorFile b)
      @ boolFlag ''-E'' (useIdentity b)
      @ numFlag ''-F'' (firstRow b)
      @ strFlag ''-i'' (inputFile b)
      @ (if readOnly b then [ArgStr ''-K'', ArgStr ''ReadOnly''] else [])
      @ boolFlag ''-k'' (keepNulls b)
      @ numFlag ''-L'' (lastRow b)
      @ numFlag ''-m'' (maxErrors b)
      @ boolFlag ''-R'' (regional b))
     @ (if \<not> omit then termFlag ''-r'' (rowTerminator b) else [])
     @ strFlag ''-S'' (server b)
     @ (if \<not> omit then termFlag ''-t'' (fieldTerminator b) else [])
     @ (if trusted b then [ArgStr ''-T'']
        else strFlag ''-U'' (user b) @ strFlag ''-P'' (password b))
     @ (if hints b = [] then []
        else [ArgStr ''-h'', ArgStr (JSON_stringify (joinWith '','' (hints b)))])"
  by (simp add: getCommonArgs_def)

text \<open>
  Claim C4. With a trusted connection the argument list holds the token \<open>-T\<close> and holds
  neither a \<open>-U\<close> nor a \<open>-P\<close> token, whatever the user and the password are set to.
\<close>

theorem getCommonArgs_trusted:
  "trusted b \<Longrightarrow>
     ArgStr ''-T'' \<in> set (getCommonArgs b omit)
     \<and> ArgStr ''-U'' \<notin> set (getCommonArgs b omit)
     \<and> ArgStr ''-P'' \<notin> set (getCommonArgs b omit)"
  unfolding getCommonArgs_def mem_args
  by (simp split del: if_split)

theorem getCommonArgs_trusted_witness:
  "trusted exBcpFull \<and> user exBcpFull = Some ''sa'' \<and> password exBcpFull = Some ''pw''
   \<and> ArgStr ''-T'' \<in> set (getCommonArgs exBcpFull False)
   \<and> ArgStr ''-U'' \<notin> set (getCommonArgs exBcpFull False)
   \<and> ArgStr ''-P'' \<notin> set (getCommonArgs exBcpFull False)"
proof -
  have h: "trusted exBcpFull" by (simp add: exBcpFull_def exBcp_def)
  from getCommonArgs_trusted[OF h, of False] h show ?thesis
    by (simp add: exBcpFull_def exBcp_def)
qed

text \<open>
  Claim C3. The hints are those of the fixed list \<open>ORDER(...)\<close>, \<open>ROWS_PER_BATCH=n\<close>,
  \<open>KILOBYTES_PER_BATCH=n\<close>, \<open>TABLOCK\<close>, \<open>CHECK_CONSTRAINTS\<close>, \<open>FIRE_TRIGGERS\<close> whose
  option is set, in that order. When there is at least one, the argument list ends with
  the token \<open>-h\<close> followed by one token, the hints joined by commas and JSON-escaped, and
  there is no other \<open>-h\<close> token; when there is none, there is no \<open>-h\<close> token at all.
\<close>

theorem getCommonArgs_hint_clause:
  "hints b = map snd (filter fst (hintTable b))
   \<and> (\<exists>pre. ArgStr ''-h'' \<notin> set pre
         \<and> getCommonArgs b omit =
             pre @ (if hints b = [] then []
                    else [ArgStr ''-h'', ArgStr (JSON_stringify (joinWith '','' (hints b)))]))"
proof
  show "hints b = map snd (filter fst (hintTable b))" by (rule hints_table)
next
  define pre where "pre =
     (numFlag ''-a'' (packetSize b)
      @ numFlag ''-b'' (batchSize b)
      @ (if \<not> omit then (if unicode b then [ArgStr ''-w''] else [ArgStr ''-c'']) else [])
      @ (if \<not> omit then strFlag ''-C'' (codePage b) else [])
      @ strFlag ''-e'' (errorFile b)
      @ boolFlag ''-E'' (useIdentity b)
      @ numFlag ''-F'' (firstRow b)
      @ strFlag ''-i'' (inputFile b)
      @ (if readOnly b then [ArgStr ''-K'', ArgStr ''ReadOnly''] else [])
      @ boolFlag ''-k'' (keepNulls b)
      @ numFlag ''-L'' (lastRow b)
      @ numFlag ''-m'' (maxErrors b)
      @ boolFlag ''-R'' (regional b))
     @ (if \<not> omit then termFlag ''-r'' (rowTerminator b) else [])
     @ strFlag ''-S'' (server b)
     @ (if \<not> omit then termFlag ''-t'' (fieldTerminator b) else [])
     @ (if trusted b then [ArgStr ''-T'']
        else strFlag ''-U'' (user b) @ strFlag ''-P'' (password b))"
  have eq: "getCommonArgs b omit = pre @ (if hints b = [] then []
         else [ArgStr ''-h'', ArgStr (JSON_stringify (joinWith '','' (hints b)))])"
    unfolding getCommonArgs_segments pre_def by simp
  have "ArgStr ''-h'' \<notin> set pre"
    unfolding pre_def mem_args by (simp split del: if_split)
  with eq show "\<exists>pre. ArgStr ''-h'' \<notin> set pre \<and>
      getCommonArgs b omit = pre @ (if hints b = [] then []
         else [ArgStr ''-h'', ArgStr (JSON_stringify (joinWith '','' (hints b)))])"
    by blast
qed

text \<open>An instance: the hints of the full example configuration.\<close>

lemma getCommonArgs_hint_clause_example:
  "getCommonArgs exBcpFull True =
     [ArgStr ''-T'', ArgStr ''-h'',
      ArgStr (JSON_stringify ''ORDER(id ASC),ROWS_PER_BATCH=10,TABLOCK,FIRE_TRIGGERS'')]"
  by code_simp

text \<open>
  Claim C2, as stated, fails on the argument list built for a bulk insert
  (\<open>omitFormat\<close> set): the configuration below sets both terminators, the row terminator
  beginning with \<open>-\<close>, and the list holds no terminator token.
\<close>

theorem getCommonArgs_omitFormat_no_terminator:
  "rowTerminator exBcpFull = Some ''-x'' \<and> fieldTerminator exBcpFull = Some ''|''
   \<and> getCommonArgs exBcpFull True =
       [ArgStr ''-T'', ArgStr ''-h'',
        ArgStr (JSON_stringify ''ORDER(id ASC),ROWS_PER_BATCH=10,TABLOCK,FIRE_TRIGGERS'')]"
  by code_simp

text \<open>
  Claim C2, amended. In the argument list built with \<open>omitFormat\<close> unset, a row or field
  terminator that is set and begins with \<open>-\<close> or \<open>/\<close> appears as the single token of the
  flag joined to the terminator, and the flag alone is no token; any other terminator that
  is set appears as two consecutive tokens, the flag and the JSON-escaped terminator, and
  the joined form is no token. In the list built with \<open>omitFormat\<close> set no token begins
  with the flag.
\<close>

theorem getCommonArgs_terminators:
  assumes "flag = ''-r'' \<and> rowTerminator b = Some t \<or> flag = ''-t'' \<and> fieldTerminator b = Some t"
    and "t \<noteq> []"
  shows "(dashed t \<longrightarrow> ArgStr (flag @ t) \<in> set (getCommonArgs b False)
                      \<and> ArgStr flag \<notin> set (getCommonArgs b False))
       \<and> (\<not> dashed t \<longrightarrow>
            (\<exists>pre post. getCommonArgs b False = pre @ [ArgStr flag, ArgStr (JSON_stringify t)] @ post)
            \<and> ArgStr (flag @ t) \<notin> set (getCommonArgs b False))
       \<and> (\<forall>x. ArgStr (flag @ x) \<notin> set (getCommonArgs b True))"
  using assms(1)
proof
  assume "flag = ''-r'' \<and> rowTerminator b = Some t"
  then have fl: "flag = ''-r''" and rt: "rowTerminator b = Some t" by simp_all
  have os: "optSet (rowTerminator b)" "strOf (rowTerminator b) = t"
    using rt assms(2) by (simp_all add: optSet_def strOf_def)
  have 1: "ArgStr (''-r'' @ t) \<in> set (getCommonArgs b False)" if "dashed t"
    unfolding getCommonArgs_def mem_args using that os by simp
  have 2: "ArgStr ''-r'' \<notin> set (getCommonArgs b False)" if "dashed t"
    unfolding getCommonArgs_def mem_args using that os assms(2) by (simp split del: if_split)
  have 3: "\<exists>pre post. getCommonArgs b False = pre @ [ArgStr ''-r'', ArgStr (JSON_stringify t)] @ post"
    if "\<not> dashed t"
    unfolding getCommonArgs_segments using that rt termFlag_Some[OF assms(2), of "''-r''"]
    by (simp del: append_assoc) blast
  have 4: "ArgStr (''-r'' @ t) \<notin> set (getCommonArgs b False)" if "\<not> dashed t"
    unfolding getCommonArgs_def mem_args using that os assms(2) by (simp split del: if_split)
  have 5: "ArgStr (''-r'' @ x) \<notin> set (getCommonArgs b True)" for x
    unfolding getCommonArgs_def mem_args by (simp split del: if_split)
  from 1 2 3 4 5 fl show ?thesis by blast
next
  assume "flag = ''-t'' \<and> fieldTerminator b = Some t"
  then have fl: "flag = ''-t''" and rt: "fieldTerminator b = Some t" by simp_all
  have os: "optSet (fieldTerminator b)" "strOf (fieldTerminator b) = t"
    using rt assms(2) by (simp_all add: optSet_def strOf_def)
  have 1: "ArgStr (''-t'' @ t) \<in> set (getCommonArgs b False)" if "dashed t"
    unfolding getCommonArgs_def mem_args using that os by simp
  have 2: "ArgStr ''-t'' \<notin> set (getCommonArgs b False)" if "dashed t"
    unfolding getCommonArgs_def mem_args using that os assms(2) by (simp split del: if_split)
  have 3: "\<exists>pre post. getCommonArgs b False = pre @ [ArgStr ''-t'', ArgStr (JSON_stringify t)] @ post"
    if "\<not> dashed t"
  proof -
    have "getCommonArgs b False =
      ((numFlag ''-a'' (packetSize b)
      @ numFlag ''-b'' (batchSize b)
      @ (if \<not> False then (if unicode b then [ArgStr ''-w''] else [ArgStr ''-c'']) else [])
      @ (if \<not> False then strFlag ''-C'' (codePage b) else [])
      @ strFlag ''-e'' (errorFile b)
      @ boolFlag ''-E'' (useIdentity b)
      @ numFlag ''-F'' (firstRow b)
      @ strFlag ''-i'' (inputFile b)
      @ (if readOnly b then [ArgStr ''-K'', ArgStr ''ReadOnly''] else [])
      @ boolFlag ''-k'' (keepNulls b)
      @ numFlag ''-L'' (lastRow b)
      @ numFlag ''-m'' (maxErrors b)
      @ boolFlag ''-R'' (regional b))
     @ (if \<not> False then termFlag ''-r'' (rowTerminator b) else [])
     @ strFlag ''-S'' (server b))
     @ [ArgStr ''-t'', ArgStr (JSON_stringify t)]
     @ ((if trusted b then [ArgStr ''-T'']
        else strFlag ''-U'' (user b) @ strFlag ''-P'' (password b))
     @ (if hints b = [] then []
        else [ArgStr ''-h'', ArgStr (JSON_stringify (joinWith '','' (hints b)))]))"
      unfolding getCommonArgs_segments using that rt termFlag_Some[OF assms(2), of "''-t''"]
      by simp
    then show ?thesis by blast
  qed
  have 4: "ArgStr (''-t'' @ t) \<notin> set (getCommonArgs b False)" if "\<not> dashed t"
    unfolding getCommonArgs_def mem_args using that os assms(2) by (simp split del: if_split)
  have 5: "ArgStr (''-t'' @ x) \<notin> set (getCommonArgs b True)" for x
    unfolding getCommonArgs_def mem_args by (simp split del: if_split)
  from 1 2 3 4 5 fl show ?thesis by blast
qed

theorem getCommonArgs_terminators_witness:
  "ArgStr ''-r-x'' \<in> set (getCommonArgs exBcpFull False)
   \<and> ArgStr ''-r'' \<notin> set (getCommonArgs exBcpFull False)
   \<and> (\<exists>pre post. getCommonArgs exBcpFull False =
         pre @ [ArgStr ''-t'', ArgStr (JSON_stringify ''|'')] @ post)
   \<and> ArgStr ''-t|'' \<notin> set (getCommonArgs exBcpFull False)"
proof -
  have r: "''-r'' = ''-r'' \<and> rowTerminator exBcpFull = Some ''-x''
         \<or> ''-r'' = ''-t'' \<and> fieldTerminator exBcpFull = Some ''-x''"
    by (simp add: exBcpFull_def exBcp_def)
  have t: "''-t'' = ''-r'' \<and> rowTerminator exBcpFull = Some ''|''
         \<or> ''-t'' = ''-t'' \<and> fieldTerminator exBcpFull = Some ''|''"
    by (simp add: exBcpFull_def exBcp_def)
  have d: "dashed ''-x''" "\<not> dashed ''|''" by (simp_all add: dashed_def)
  from getCommonArgs_terminators[OF r] getCommonArgs_terminators[OF t] d show ?thesis
    by simp
qed


section \<open>Properties of the operations\<close>

subsection \<open>Steps, options and the summary line\<close>

lemma andThen_Done [simp]: "andThen (es, Done a) f = (es @ fst (f a), snd (f a))"
  by (simp add: andThen_def split: prod.splits)

lemma andThen_Failed [simp]: "andThen (es, Failed e) f = (es, Failed e)"
  by (simp add: andThen_def)

lemma andThen_Hangs [simp]: "andThen (es, Hangs) f = (es, Hangs)"
  by (simp add: andThen_def)

lemma fst_andThen:
  "fst (andThen s f) = fst s @ (case snd s of Done a \<Rightarrow> fst (f a) | _ \<Rightarrow> [])"
  by (cases s; cases "snd s") auto

lemma snd_andThen:
  "snd (andThen s f) = (case snd s of Done a \<Rightarrow> snd (f a) | Failed e \<Rightarrow> Failed e | Hangs \<Rightarrow> Hangs)"
  by (cases s; cases "snd s") auto

lemma getProp_mergeOptions_absent:
  "k \<notin> fst ` set defaults \<Longrightarrow> getProp (mergeOptions defaults ov) k = JUndefined"
proof -
  assume a: "k \<notin> fst ` set defaults"
  have "map fst (mergeOptions defaults ov) = map fst defaults"
    by (cases ov) (auto simp: mergeOptions_def)
  then have "fst ` set (mergeOptions defaults ov) = fst ` set defaults"
    by (metis set_map)
  with a have "map_of (mergeOptions defaults ov) k = None"
    by (simp add: map_of_eq_None_iff)
  then show ?thesis by (simp add: getProp_def)
qed

lemma getProp_update:
  "getProp (AList.update k' v opts) k = (if k = k' then v else getProp opts k)"
  by (simp add: getProp_def update_conv')

lemma bulkExport_options:
  fixes ov
  defines "opts \<equiv> mergeOptions [(''read'', JBool True), (''keepFiles'', JBool False)] ov"
  defines "opts' \<equiv> (if \<not> truthy (getProp opts ''read'')
                    then AList.update ''keepFiles'' (JBool True) opts else opts)"
  shows "truthy (getProp opts ''read'') = readOn ov"
    and "truthy (getProp opts' ''read'') = readOn ov"
    and "truthy (getProp opts' ''keepFiles'') = keepOn ov"
    and "getProp opts' ''formatFile'' = JUndefined"
    and "getProp opts' ''exportFile'' = JUndefined"
proof -
  show r: "truthy (getProp opts ''read'') = readOn ov"
    by (cases ov) (auto simp: opts_def mergeOptions_def getProp_def readOn_def split: option.splits)
  show "truthy (getProp opts' ''read'') = readOn ov"
    using r by (simp add: opts'_def getProp_update)
  have k: "truthy (getProp opts ''keepFiles'') =
      (case ov of None \<Rightarrow> False
      | Some m \<Rightarrow> (case m ''keepFiles'' of None \<Rightarrow> False | Some v \<Rightarrow> truthy v))"
    by (cases ov) (auto simp: opts_def mergeOptions_def getProp_def split: option.splits)
  show "truthy (getProp opts' ''keepFiles'') = keepOn ov"
    using r k by (simp add: opts'_def getProp_update keepOn_def)
  have "getProp opts ''formatFile'' = JUndefined" "getProp opts ''exportFile'' = JUndefined"
    unfolding opts_def by (rule getProp_mergeOptions_absent, simp)+
  then show "getProp opts' ''formatFile'' = JUndefined" "getProp opts' ''exportFile'' = JUndefined"
    by (simp_all add: opts'_def getProp_update)
qed

lemma bulkExport_unfold:
  "bulkExport env b table ov =
     andThen (ensureDirectories env [formatPath env b, exportPath env b]) (\<lambda>_.
     andThen (formatGenerate env b (getQualifiedTable b table) (formatPath env b) (getCommonArgs b False)) (\<lambda>fmt.
     andThen ([Exec (exportCommand env b table)],
              case childExec env (exportCommand env b table) (timeout b) (killSignal b) of
                Inl e \<Rightarrow> Failed [e]
              | Inr out \<Rightarrow> Done out) (\<lambda>out.
     andThen (if readOn ov
              then andThen (readExport env (exportPath env b) fmt) (\<lambda>rows. ([], Done (Some rows)))
              else ([], Done None)) (\<lambda>rows.
     andThen (if keepOn ov then ([], Done ())
              else parallel Unlink (unlink env) [formatPath env b, exportPath env b]) (\<lambda>_.
     ([], Done (rows,
        \<lparr>formatFile = formatPath env b, exportFile = exportPath env b,
         rowCount = (case matchRowsCopied out of Some ds \<Rightarrow> digitsValue ds | None \<Rightarrow> 0),
         stdout = Some out\<rparr>)))))))"
proof -
  have d: "(case m of Some ds \<Rightarrow> d\<lparr>rowCount := digitsValue ds\<rparr> | None \<Rightarrow> d)
      = d\<lparr>rowCount := (case m of Some ds \<Rightarrow> digitsValue ds | None \<Rightarrow> rowCount d)\<rparr>"
    for m and d :: details
    by (cases m) simp_all
  show ?thesis
    unfolding bulkExport_def Let_def
    unfolding bulkExport_options(2-5) d
    by (simp add: jsOr_def formatPath_def exportPath_def exportCommand_def
        split del: if_split cong: if_cong option.case_cong)
qed

lemma no_unlink_ensureDirectories: "Unlink p \<notin> set (fst (ensureDirectories env ps))"
  by (auto simp: ensureDirectories_def parallel_def Let_def)

lemma fst_formatGenerate:
  "\<exists>cmd. fst (formatGenerate env b t file args) = [Exec cmd]
       \<or> fst (formatGenerate env b t file args) = [Exec cmd, FromFile file]"
  by (auto simp: formatGenerate_def Let_def split: sum.splits)

lemma formatGenerate_Done:
  "formatGenerate env b t file args = (es, Done fmt) \<Longrightarrow> \<exists>cmd. es = [Exec cmd, FromFile file]"
  by (auto simp: formatGenerate_def Let_def split: sum.splits)

lemma no_unlink_formatGenerate: "Unlink p \<notin> set (fst (formatGenerate env b t file args))"
  by (auto simp: formatGenerate_def Let_def split: sum.splits)

lemma fst_readExport [simp]: "fst (readExport env file fmt) = [ReadFile file]"
  by (simp add: readExport_def)

lemma not_isDigit_space [simp]: "\<not> isDigit CHR '' ''"
  by (simp add: isDigit_def)

lemma rowsCopiedAt_Some_iff:
  "rowsCopiedAt s = Some ds \<longleftrightarrow>
     ds \<noteq> [] \<and> (\<forall>c\<in>set ds. isDigit c) \<and> (\<exists>post. s = ds @ '' rows copied.'' @ post)"
  (is "?L = ?R")
proof
  assume ?L
  then have ds: "ds = takeWhile isDigit s" "ds \<noteq> []"
    and lit: "take 13 (dropWhile isDigit s) = '' rows copied.''"
    by (auto simp: rowsCopiedAt_def Let_def split: if_splits)
  have "dropWhile isDigit s = take 13 (dropWhile isDigit s) @ drop 13 (dropWhile isDigit s)"
    by simp
  with lit have "dropWhile isDigit s = '' rows copied.'' @ drop 13 (dropWhile isDigit s)"
    by metis
  then have "s = ds @ '' rows copied.'' @ drop 13 (dropWhile isDigit s)"
    using ds(1) takeWhile_dropWhile_id[of isDigit s] by metis
  moreover have "\<forall>c\<in>set ds. isDigit c" unfolding ds(1) by (auto dest: set_takeWhileD)
  ultimately show ?R using ds(2) by blast
next
  assume ?R
  then obtain post where R: "ds \<noteq> []" "\<forall>c\<in>set ds. isDigit c" "s = ds @ '' rows copied.'' @ post"
    by blast
  from R(2) have "takeWhile isDigit s = ds" "dropWhile isDigit s = '' rows copied.'' @ post"
    unfolding R(3) by (simp_all add: takeWhile_append2 dropWhile_append2)
  with R(1) show ?L by (simp add: rowsCopiedAt_def Let_def)
qed

lemma matchRowsCopied_None_iff:
  "matchRowsCopied s = None \<longleftrightarrow>
     \<not> (\<exists>pre ds post. s = pre @ ds @ '' rows copied.'' @ post \<and> ds \<noteq> [] \<and> (\<forall>c\<in>set ds. isDigit c))"
proof (induction s)
  case Nil
  then show ?case by simp
next
  case (Cons c cs)
  have here: "rowsCopiedAt (c # cs) = None \<longleftrightarrow>
      \<not> (\<exists>ds post. c # cs = ds @ '' rows copied.'' @ post \<and> ds \<noteq> [] \<and> (\<forall>c\<in>set ds. isDigit c))"
  proof (cases "rowsCopiedAt (c # cs)")
    case None
    have "\<not> (ds \<noteq> [] \<and> (\<forall>c\<in>set ds. isDigit c) \<and> (\<exists>post. c # cs = ds @ '' rows copied.'' @ post))" for ds
      using None rowsCopiedAt_Some_iff[of "c # cs" ds] by simp
    with None show ?thesis by blast
  next
    case (Some ds)
    then have "ds \<noteq> [] \<and> (\<forall>c\<in>set ds. isDigit c) \<and> (\<exists>post. c # cs = ds @ '' rows copied.'' @ post)"
      using rowsCopiedAt_Some_iff[of "c # cs" ds] by blast
    with Some show ?thesis by auto
  qed
  have split: "(\<exists>pre ds post. c # cs = pre @ ds @ '' rows copied.'' @ post \<and> ds \<noteq> [] \<and> (\<forall>c\<in>set ds. isDigit c))
     \<longleftrightarrow> (\<exists>ds post. c # cs = ds @ '' rows copied.'' @ post \<and> ds \<noteq> [] \<and> (\<forall>c\<in>set ds. isDigit c))
       \<or> (\<exists>pre ds post. cs = pre @ ds @ '' rows copied.'' @ post \<and> ds \<noteq> [] \<and> (\<forall>c\<in>set ds. isDigit c))"
    (is "?A \<longleftrightarrow> ?B \<or> ?C")
  proof
    assume ?A
    then obtain pre ds post where a: "c # cs = pre @ ds @ '' rows copied.'' @ post" "ds \<noteq> []"
        "\<forall>c\<in>set ds. isDigit c" by blast
    show "?B \<or> ?C"
    proof (cases pre)
      case Nil
      with a show ?thesis by auto
    next
      case (Cons p pre')
      with a have "cs = pre' @ ds @ '' rows copied.'' @ post" by simp
      with a(2,3) show ?thesis by blast
    qed
  next
    assume "?B \<or> ?C"
    then show ?A
    proof
      assume ?B
      then obtain ds post where "c # cs = [] @ ds @ '' rows copied.'' @ post" "ds \<noteq> []"
        "\<forall>c\<in>set ds. isDigit c" by auto
      then show ?A by blast
    next
      assume ?C
      then obtain pre ds post where "c # cs = (c # pre) @ ds @ '' rows copied.'' @ post" "ds \<noteq> []"
        "\<forall>c\<in>set ds. isDigit c" by auto
      then show ?A by blast
    qed
  qed
  have "matchRowsCopied (c # cs) = None \<longleftrightarrow> rowsCopiedAt (c # cs) = None \<and> matchRowsCopied cs = None"
    by (simp split: option.splits)
  with here Cons.IH split show ?case by simp
qed

lemma mergeOptions_keys: "map fst (mergeOptions defaults ov) = map fst defaults"
  by (cases ov) (auto simp: mergeOptions_def)

lemma readOn_upd:
  "readOn (Some (m(''formatFile'' := x, ''exportFile'' := y))) = readOn (Some m)"
  "keepOn (Some (m(''formatFile'' := x, ''exportFile'' := y))) = keepOn (Some m)"
  by (simp_all add: readOn_def keepOn_def)

lemma arrayIndexOf_None_iff: "arrayIndexOf xs x = None \<longleftrightarrow> x \<notin> set xs"
  by (induction xs) auto

lemma checkColumns_missing:
  "find (\<lambda>c. toLowerCase c \<notin> set orig) columns = Some c \<Longrightarrow>
   checkColumns fullTable orig columns fs = Inl (Error (fullTable @ '' does not contain column '' @ c))"
proof (induction columns arbitrary: fs)
  case Nil
  then show ?case by simp
next
  case (Cons a columns)
  show ?case
  proof (cases "toLowerCase a \<in> set orig")
    case True
    then obtain dex where "arrayIndexOf orig (toLowerCase a) = Some dex"
      using arrayIndexOf_None_iff[of orig "toLowerCase a"] by auto
    moreover from True Cons.prems have "find (\<lambda>c. toLowerCase c \<notin> set orig) columns = Some c" by simp
    ultimately show ?thesis using Cons.IH by simp
  next
    case False
    with Cons.prems have "a = c" by simp
    moreover from False have "arrayIndexOf orig (toLowerCase a) = None"
      by (simp add: arrayIndexOf_None_iff)
    ultimately show ?thesis by simp
  qed
qed


subsection \<open>Bulk export\<close>

text \<open>
  Claim C7. A \<open>bulkExport\<close> whose options set \<open>read\<close> to false (to any value that
  counts as false) starts no deletion, whatever \<open>keepFiles\<close> is set to and however the run
  ends. With the default options a run that succeeds has deleted the format file and the
  export file: the two deletions are the last effects of the run and both succeeded.
\<close>

theorem bulkExport_keeps_files:
  "(m ''read'' = Some v \<and> \<not> truthy v \<longrightarrow>
      (\<forall>p. Unlink p \<notin> set (fst (bulkExport env b table (Some m)))))
   \<and> (snd (bulkExport env b table None) = Done (rows, d) \<longrightarrow>
        (\<exists>pre. fst (bulkExport env b table None) =
                 pre @ [Unlink (formatFile d), Unlink (exportFile d)])
        \<and> unlink env (formatFile d) = None \<and> unlink env (exportFile d) = None)"
proof (intro conjI impI allI)
  fix p
  assume a: "m ''read'' = Some v \<and> \<not> truthy v"
  then have r: "\<not> readOn (Some m)" "keepOn (Some m)" by (simp_all add: readOn_def keepOn_def)
  show "Unlink p \<notin> set (fst (bulkExport env b table (Some m)))"
    unfolding bulkExport_unfold using r
    by (auto simp: fst_andThen no_unlink_ensureDirectories no_unlink_formatGenerate
        split: outcome.splits sum.splits)
next
  assume a: "snd (bulkExport env b table None) = Done (rows, d)"
  have r: "readOn None" "\<not> keepOn None" by (simp_all add: readOn_def keepOn_def)
  from a have d: "formatFile d = formatPath env b" "exportFile d = exportPath env b"
    and u: "snd (parallel Unlink (unlink env) [formatPath env b, exportPath env b]) = Done ()"
    unfolding bulkExport_unfold using r
    by (auto simp: snd_andThen split: outcome.splits sum.splits if_splits)
  from u show "unlink env (formatFile d) = None" "unlink env (exportFile d) = None"
    unfolding d by (auto simp: parallel_def List.map_filter_def split: list.splits if_splits option.splits)
  from a show "\<exists>pre. fst (bulkExport env b table None) = pre @ [Unlink (formatFile d), Unlink (exportFile d)]"
    unfolding d unfolding bulkExport_unfold using r
    by (auto simp: snd_andThen fst_andThen parallel_def split: outcome.splits sum.splits if_splits)
qed

theorem bulkExport_keeps_files_witness:
  "(\<forall>p. Unlink p \<notin> set (fst (bulkExport exEnv exBcp ''t''
            (Some [''read'' \<mapsto> JBool False, ''keepFiles'' \<mapsto> JBool False]))))
   \<and> (\<exists>pre. fst (bulkExport exEnv exBcp ''t'' None) =
         pre @ [Unlink (JStr ''/tmp/1_2_3_format.xml''), Unlink (JStr ''/tmp/1_2_3_export.dat'')])"
proof -
  let ?d = "\<lparr>formatFile = JStr ''/tmp/1_2_3_format.xml'', exportFile = JStr ''/tmp/1_2_3_export.dat'',
            rowCount = 0, stdout = Some ''Starting copy...''\<rparr>"
  have h1: "[''read'' \<mapsto> JBool False, ''keepFiles'' \<mapsto> JBool False] ''read'' = Some (JBool False)
      \<and> \<not> truthy (JBool False)"
    by simp
  have h2: "snd (bulkExport exEnv exBcp ''t'' None) =
      Done (Some [[(''f0'', NumberOf ''42''), (''f1'', DBoolean True)]], ?d)"
    by code_simp
  from bulkExport_keeps_files[of "[''read'' \<mapsto> JBool False, ''keepFiles'' \<mapsto> JBool False]"
      "JBool False" exEnv exBcp "''t''" "Some [[(''f0'', NumberOf ''42''), (''f1'', DBoolean True)]]" ?d]
    h1 h2
  show ?thesis by simp
qed

text \<open>
  The outcome of a \<open>bulkExport\<close> whose first three steps succeed: it is decided by the
  read (when results are read back) and by the deletions (when files are not kept).
\<close>

lemma bulkExport_outcome:
  assumes "ensureDirectories env [formatPath env b, exportPath env b] = (es1, Done ())"
    and "formatGenerate env b (getQualifiedTable b table) (formatPath env b) (getCommonArgs b False)
           = (es2, Done fmt)"
    and "childExec env (exportCommand env b table) (timeout b) (killSignal b) = Inr out"
  shows "snd (bulkExport env b table ov) =
     (let d = \<lparr>formatFile = formatPath env b, exportFile = exportPath env b,
               rowCount = (case matchRowsCopied out of Some ds \<Rightarrow> digitsValue ds | None \<Rightarrow> 0),
               stdout = Some out\<rparr>
      in case (if readOn ov
               then (case readFile env (exportPath env b) (encoding fmt) of
                       Inl e \<Rightarrow> Failed [e]
                     | Inr data \<Rightarrow>
                         (case readRows data (fields' fmt) of
                            None \<Rightarrow> Hangs
                          | Some rows \<Rightarrow> Done (Some rows)))
               else Done None) of
           Done rows \<Rightarrow>
             (if keepOn ov then Done (rows, d)
              else (case List.map_filter (unlink env) [formatPath env b, exportPath env b] of
                      [] \<Rightarrow> Done (rows, d)
                    | e # es \<Rightarrow> Failed (e # es)))
         | Failed e \<Rightarrow> Failed e
         | Hangs \<Rightarrow> Hangs)"
  unfolding bulkExport_unfold using assms
  by (simp add: snd_andThen readExport_def parallel_def Let_def
      split: sum.splits option.splits list.splits)

text \<open>
  Claim C9, as stated, fails: the tool succeeding without a summary line does not make
  the operation complete. In the first run below every deletion is refused and the
  operation fails with the two errors; in the second the format lists no field, and the
  reader, hence the operation, does not return.
\<close>

theorem bulkExport_failure_without_summary:
  "matchRowsCopied ''Starting copy...'' = None
   \<and> snd (bulkExport exEnvUnlinkFails exBcp ''t'' None) = Failed [Error ''EPERM'', Error ''EPERM'']
   \<and> snd (bulkExport exEnvNoFields exBcp ''t'' None) = Hangs"
proof (intro conjI)
  show "matchRowsCopied ''Starting copy...'' = None" by code_simp
  show "snd (bulkExport exEnvUnlinkFails exBcp ''t'' None) = Failed [Error ''EPERM'', Error ''EPERM'']"
    by code_simp
  let ?data = "''42'' @ [CHR 0x09] @ ''1'' @ [CHR 0x0A] @ ''7'' @ [CHR 0x09] @ ''0''"
  have h1: "ensureDirectories exEnvNoFields [formatPath exEnvNoFields exBcp, exportPath exEnvNoFields exBcp]
      = ([MkDir ''/tmp''], Done ())"
    by code_simp
  have h2: "formatGenerate exEnvNoFields exBcp (getQualifiedTable exBcp ''t'')
      (formatPath exEnvNoFields exBcp) (getCommonArgs exBcp False)
      = (fst (formatGenerate exEnvNoFields exBcp (getQualifiedTable exBcp ''t'')
               (formatPath exEnvNoFields exBcp) (getCommonArgs exBcp False)),
         Done (exFormat\<lparr>fields' := []\<rparr>))"
    by (simp add: formatGenerate_def exEnvNoFields_def exEnv_def Let_def)
  have h3: "childExec exEnvNoFields (exportCommand exEnvNoFields exBcp ''t'') (timeout exBcp)
      (killSignal exBcp) = Inr ''Starting copy...''"
    by (simp add: exEnvNoFields_def exEnv_def)
  have rf: "readFile exEnvNoFields (exportPath exEnvNoFields exBcp)
      (encoding (exFormat\<lparr>fields' := []\<rparr>)) = Inr ?data"
    by (simp add: exEnvNoFields_def exEnv_def)
  have "\<not> (\<exists>rows. readRows ?data [] = Some rows)"
    unfolding readRows_returns_iff by simp
  then have rr: "readRows ?data (fields' (exFormat\<lparr>fields' := []\<rparr>)) = None" by simp
  have ro: "readOn None" by (simp add: readOn_def)
  show "snd (bulkExport exEnvNoFields exBcp ''t'' None) = Hangs"
    unfolding bulkExport_outcome[OF h1 h2 h3] using rf rr ro by (simp add: Let_def)
qed

text \<open>
  Claim C9, amended. When directory creation, format generation and the tool's export run
  succeed and the captured output holds no match of \<open>(\d+) rows copied\.\<close>, the missing
  line is never an error: the outcome of \<open>bulkExport\<close> is decided by the remaining steps
  alone. It fails only with the error of the read or the errors of the deletions, it does
  not return only when the reader does not, and it completes otherwise; every result
  reports the row count 0 and the output as captured; and it completes, with the effects
  listed, whenever the read (when results are read back) and the deletions (when files
  are not kept) succeed.
\<close>

theorem bulkExport_without_summary:
  assumes "ensureDirectories env [formatPath env b, exportPath env b] = (es1, Done ())"
    and "formatGenerate env b (getQualifiedTable b table) (formatPath env b) (getCommonArgs b False)
           = (es2, Done fmt)"
    and "childExec env (exportCommand env b table) (timeout b) (killSignal b) = Inr out"
    and "matchRowsCopied out = None"
  shows
    "snd (bulkExport env b table ov) =
       (let d = \<lparr>formatFile = formatPath env b, exportFile = exportPath env b,
                 rowCount = 0, stdout = Some out\<rparr>
        in case (if readOn ov
                 then (case readFile env (exportPath env b) (encoding fmt) of
                         Inl e \<Rightarrow> Failed [e]
                       | Inr data \<Rightarrow>
                           (case readRows data (fields' fmt) of
                              None \<Rightarrow> Hangs
                            | Some rows \<Rightarrow> Done (Some rows)))
                 else Done None) of
             Done rows \<Rightarrow>
               (if keepOn ov then Done (rows, d)
                else (case List.map_filter (unlink env) [formatPath env b, exportPath env b] of
                        [] \<Rightarrow> Done (rows, d)
                      | e # es \<Rightarrow> Failed (e # es)))
           | Failed e \<Rightarrow> Failed e
           | Hangs \<Rightarrow> Hangs)
     \<and> (\<forall>rows d. snd (bulkExport env b table ov) = Done (rows, d) \<longrightarrow>
           rowCount d = 0 \<and> stdout d = Some out)
     \<and> ((readOn ov \<longrightarrow> readFile env (exportPath env b) (encoding fmt) = Inr data
                         \<and> readRows data (fields' fmt) = Some rows)
         \<and> (\<not> keepOn ov \<longrightarrow> unlink env (formatPath env b) = None
                              \<and> unlink env (exportPath env b) = None) \<longrightarrow>
         bulkExport env b table ov =
           (es1 @ es2 @ [Exec (exportCommand env b table)]
              @ (if readOn ov then [ReadFile (exportPath env b)] else [])
              @ (if keepOn ov then [] else [Unlink (formatPath env b), Unlink (exportPath env b)]),
            Done (if readOn ov then Some rows else None,
                  \<lparr>formatFile = formatPath env b, exportFile = exportPath env b,
                   rowCount = 0, stdout = Some out\<rparr>)))"
proof (intro conjI)
  show main: "snd (bulkExport env b table ov) =
       (let d = \<lparr>formatFile = formatPath env b, exportFile = exportPath env b,
                 rowCount = 0, stdout = Some out\<rparr>
        in case (if readOn ov
                 then (case readFile env (exportPath env b) (encoding fmt) of
                         Inl e \<Rightarrow> Failed [e]
                       | Inr data \<Rightarrow>
                           (case readRows data (fields' fmt) of
                              None \<Rightarrow> Hangs
                            | Some rows \<Rightarrow> Done (Some rows)))
                 else Done None) of
             Done rows \<Rightarrow>
               (if keepOn ov then Done (rows, d)
                else (case List.map_filter (unlink env) [formatPath env b, exportPath env b] of
                        [] \<Rightarrow> Done (rows, d)
                      | e # es \<Rightarrow> Failed (e # es)))
           | Failed e \<Rightarrow> Failed e
           | Hangs \<Rightarrow> Hangs)"
    unfolding bulkExport_outcome[OF assms(1,2,3)] using assms(4) by simp
  show "\<forall>rows d. snd (bulkExport env b table ov) = Done (rows, d) \<longrightarrow>
           rowCount d = 0 \<and> stdout d = Some out"
    unfolding main
    by (auto simp: Let_def split: if_splits sum.splits option.splits list.splits outcome.splits)
  show "(readOn ov \<longrightarrow> readFile env (exportPath env b) (encoding fmt) = Inr data
                         \<and> readRows data (fields' fmt) = Some rows)
         \<and> (\<not> keepOn ov \<longrightarrow> unlink env (formatPath env b) = None
                              \<and> unlink env (exportPath env b) = None) \<longrightarrow>
         bulkExport env b table ov =
           (es1 @ es2 @ [Exec (exportCommand env b table)]
              @ (if readOn ov then [ReadFile (exportPath env b)] else [])
              @ (if keepOn ov then [] else [Unlink (formatPath env b), Unlink (exportPath env b)]),
            Done (if readOn ov then Some rows else None,
                  \<lparr>formatFile = formatPath env b, exportFile = exportPath env b,
                   rowCount = 0, stdout = Some out\<rparr>))"
    unfolding bulkExport_unfold using assms
    by (simp add: readExport_def parallel_def List.map_filter_def)
qed

theorem bulkExport_without_summary_witness:
  "matchRowsCopied ''Starting copy...'' = None
   \<and> snd (bulkExport exEnv exBcp ''t'' None) =
       Done (Some [[(''f0'', NumberOf ''42''), (''f1'', DBoolean True)]],
             \<lparr>formatFile = JStr ''/tmp/1_2_3_format.xml'', exportFile = JStr ''/tmp/1_2_3_export.dat'',
              rowCount = 0, stdout = Some ''Starting copy...''\<rparr>)"
proof -
  let ?data = "''42'' @ [CHR 0x09] @ ''1'' @ [CHR 0x0A] @ ''7'' @ [CHR 0x09] @ ''0''"
  let ?rows = "[[(''f0'', NumberOf ''42''), (''f1'', DBoolean True)]]"
  have fp: "formatPath exEnv exBcp = JStr ''/tmp/1_2_3_format.xml''"
    and ep: "exportPath exEnv exBcp = JStr ''/tmp/1_2_3_export.dat''"
    by code_simp+
  have h1: "ensureDirectories exEnv [formatPath exEnv exBcp, exportPath exEnv exBcp]
      = ([MkDir ''/tmp''], Done ())"
    by code_simp
  have h2: "formatGenerate exEnv exBcp (getQualifiedTable exBcp ''t'') (formatPath exEnv exBcp)
      (getCommonArgs exBcp False)
      = (fst (formatGenerate exEnv exBcp (getQualifiedTable exBcp ''t'') (formatPath exEnv exBcp)
               (getCommonArgs exBcp False)), Done exFormat)"
    by (simp add: formatGenerate_def exEnv_def Let_def)
  have h3: "childExec exEnv (exportCommand exEnv exBcp ''t'') (timeout exBcp) (killSignal exBcp)
      = Inr ''Starting copy...''"
    by (simp add: exEnv_def)
  have h4: "matchRowsCopied ''Starting copy...'' = None"
    by code_simp
  have h5: "readOn None \<longrightarrow> readFile exEnv (exportPath exEnv exBcp) (encoding exFormat) = Inr ?data
      \<and> readRows ?data (fields' exFormat) = Some ?rows"
    by code_simp
  have h6: "\<not> keepOn None \<longrightarrow> unlink exEnv (formatPath exEnv exBcp) = None
      \<and> unlink exEnv (exportPath exEnv exBcp) = None"
    by (simp add: exEnv_def)
  have ro: "readOn None" by (simp add: readOn_def)
  from bulkExport_without_summary[OF h1 h2 h3 h4, where ov = None and data = ?data and rows = ?rows]
  have "bulkExport exEnv exBcp ''t'' None =
      ([MkDir ''/tmp''] @ fst (formatGenerate exEnv exBcp (getQualifiedTable exBcp ''t'')
            (formatPath exEnv exBcp) (getCommonArgs exBcp False))
         @ [Exec (exportCommand exEnv exBcp ''t'')]
         @ (if readOn None then [ReadFile (exportPath exEnv exBcp)] else [])
         @ (if keepOn None then []
            else [Unlink (formatPath exEnv exBcp), Unlink (exportPath exEnv exBcp)]),
       Done (if readOn None then Some ?rows else None,
             \<lparr>formatFile = formatPath exEnv exBcp, exportFile = exportPath exEnv exBcp,
              rowCount = 0, stdout = Some ''Starting copy...''\<rparr>))"
    using h5 h6 by blast
  with h4 show ?thesis by (simp add: fp ep ro)
qed

text \<open>
  Claim C10. Merging options keeps exactly the keys of the defaults, so after merging the
  options of \<open>bulkExport\<close> have no \<open>formatFile\<close> and no \<open>exportFile\<close>. A \<open>formatFile\<close> or
  \<open>exportFile\<close> key among the overrides changes nothing in the run; every run begins by
  creating the directories of the two paths made from the temp file base, which lies
  under the configured temp directory, and the details of a run that succeeds hold these
  two paths.
\<close>

theorem bulkExport_file_options_ignored:
  "map fst (mergeOptions defaults ov) = map fst defaults
   \<and> getProp (mergeOptions [(''read'', JBool True), (''keepFiles'', JBool False)] ov) ''formatFile''
       = JUndefined
   \<and> getProp (mergeOptions [(''read'', JBool True), (''keepFiles'', JBool False)] ov) ''exportFile''
       = JUndefined
   \<and> bulkExport env b table (Some (m(''formatFile'' := x, ''exportFile'' := y)))
       = bulkExport env b table (Some m)
   \<and> (\<exists>rest. fst (bulkExport env b table ov) =
         fst (ensureDirectories env [JStr (tempFile env b @ ''_format.xml''),
                                     JStr (tempFile env b @ ''_export.dat'')]) @ rest)
   \<and> (\<forall>rows d. snd (bulkExport env b table ov) = Done (rows, d) \<longrightarrow>
         formatFile d = JStr (tempFile env b @ ''_format.xml'')
         \<and> exportFile d = JStr (tempFile env b @ ''_export.dat''))
   \<and> (\<exists>base. tempFile env b = pathJoin env (tmp b) base)"
proof (intro conjI)
  show "map fst (mergeOptions defaults ov) = map fst defaults" by (rule mergeOptions_keys)
  show "getProp (mergeOptions [(''read'', JBool True), (''keepFiles'', JBool False)] ov) ''formatFile'' = JUndefined"
    by (rule getProp_mergeOptions_absent) simp
  show "getProp (mergeOptions [(''read'', JBool True), (''keepFiles'', JBool False)] ov) ''exportFile'' = JUndefined"
    by (rule getProp_mergeOptions_absent) simp
  show "bulkExport env b table (Some (m(''formatFile'' := x, ''exportFile'' := y))) = bulkExport env b table (Some m)"
    unfolding bulkExport_unfold readOn_upd ..
  show "\<exists>rest. fst (bulkExport env b table ov) =
         fst (ensureDirectories env [JStr (tempFile env b @ ''_format.xml''),
                                     JStr (tempFile env b @ ''_export.dat'')]) @ rest"
    unfolding bulkExport_unfold fst_andThen formatPath_def exportPath_def by blast
  show "\<forall>rows d. snd (bulkExport env b table ov) = Done (rows, d) \<longrightarrow>
         formatFile d = JStr (tempFile env b @ ''_format.xml'')
         \<and> exportFile d = JStr (tempFile env b @ ''_export.dat'')"
    unfolding bulkExport_unfold formatPath_def exportPath_def
    by (auto simp: snd_andThen split: outcome.splits sum.splits if_splits)
  show "\<exists>base. tempFile env b = pathJoin env (tmp b) base"
    unfolding tempFile_def Let_def by blast
qed

theorem bulkExport_file_options_ignored_witness:
  "snd (bulkExport exEnv exBcp ''t'' (Some [''formatFile'' \<mapsto> JStr ''/my/format.xml'']))
     = Done (Some [[(''f0'', NumberOf ''42''), (''f1'', DBoolean True)]],
             \<lparr>formatFile = JStr ''/tmp/1_2_3_format.xml'', exportFile = JStr ''/tmp/1_2_3_export.dat'',
              rowCount = 0, stdout = Some ''Starting copy...''\<rparr>)
   \<and> JStr (tempFile exEnv exBcp @ ''_format.xml'') = JStr ''/tmp/1_2_3_format.xml''
   \<and> JStr (tempFile exEnv exBcp @ ''_export.dat'') = JStr ''/tmp/1_2_3_export.dat''"
proof -
  let ?d = "\<lparr>formatFile = JStr ''/tmp/1_2_3_format.xml'', exportFile = JStr ''/tmp/1_2_3_export.dat'',
            rowCount = 0, stdout = Some ''Starting copy...''\<rparr>"
  have run: "snd (bulkExport exEnv exBcp ''t'' (Some [''formatFile'' \<mapsto> JStr ''/my/format.xml'']))
     = Done (Some [[(''f0'', NumberOf ''42''), (''f1'', DBoolean True)]], ?d)"
    by code_simp
  from bulkExport_file_options_ignored[of _ "Some [''formatFile'' \<mapsto> JStr ''/my/format.xml'']"
      exEnv exBcp "''t''"] run
  have "formatFile ?d = JStr (tempFile exEnv exBcp @ ''_format.xml'')
      \<and> exportFile ?d = JStr (tempFile exEnv exBcp @ ''_export.dat'')"
    by blast
  with run show ?thesis by simp
qed

subsection \<open>Preparing a bulk insert\<close>

text \<open>
  Claim C1, as stated, fails: the column check needs the format of the live table, so it
  runs after the external tool has been invoked to generate the format file. In the run
  below the requested column is missing; the failure names the table and the column, and
  the effects before it are a directory creation, the execution of the tool and the
  loading of the format file it wrote.
\<close>

theorem prepareBulkInsert_process_precedes_validation:
  "prepareBulkInsert exEnv exBcp ''t'' [''missing''] None =
     ([MkDir ''/tmp'',
       Exec (''bcp [dbo].[t] format nul -x -f '' @ JSON_stringify ''/tmp/1_2_3_format.xml''
             @ '' -c -T''),
       FromFile (JStr ''/tmp/1_2_3_format.xml'')],
      Failed [Error ''[dbo].[t] does not contain column missing''])"
  by code_simp

text \<open>
  Matching is case-insensitive on the Latin-1 letters as well: the column \<open>U+00C9\<close>
  matches a field named \<open>U+00E9\<close>.
\<close>

lemma toLowerCase_latin1:
  "toLowerCase (''Caf'' @ [CHR 0xC9]) = ''caf'' @ [CHR 0xE9]
   \<and> arrayIndexOf [toLowerCase [CHR 0xE9]] (toLowerCase [CHR 0xC9]) = Some 0"
  by code_simp

text \<open>
  Claim C1, amended. When directory creation and format generation succeed and some
  requested column matches, case-insensitively, no field name of the generated format,
  \<open>prepareBulkInsert\<close> fails with an error naming the qualified table and the first such
  column. The effects of the run are those of the two steps before the check: the
  external tool has been executed once and the format file loaded; no import file handle
  is constructed and nothing runs after the check.
\<close>

theorem prepareBulkInsert_missing_column:
  assumes "options = mergeOptions [(''formatFile'', JStr (tempFile env b @ ''_format.xml'')),
                                   (''importFile'', JStr (tempFile env b @ ''_import.dat''))] ov"
    and "ensureDirectories env [getProp options ''formatFile'', getProp options ''importFile'']
           = (es1, Done ())"
    and "formatGenerate env b (getQualifiedTable b table) (getProp options ''formatFile'')
           (getCommonArgs b False) = (es2, Done fmt)"
    and "find (\<lambda>c. toLowerCase c \<notin> set (map (\<lambda>f. toLowerCase (name f)) (fields' fmt))) columns
           = Some c"
  shows "prepareBulkInsert env b table columns ov =
           (es1 @ es2, Failed [Error (getQualifiedTable b table @ '' does not contain column '' @ c)])
         \<and> (\<exists>cmd. es2 = [Exec cmd, FromFile (getProp options ''formatFile'')])
         \<and> (\<forall>p. NewImportFile p \<notin> set (es1 @ es2))"
proof (intro conjI)
  from checkColumns_missing[OF assms(4)]
  show "prepareBulkInsert env b table columns ov =
           (es1 @ es2, Failed [Error (getQualifiedTable b table @ '' does not contain column '' @ c)])"
    unfolding prepareBulkInsert_def Let_def assms(1)[symmetric] assms(2,3) by simp
  from formatGenerate_Done[OF assms(3)]
  show e2: "\<exists>cmd. es2 = [Exec cmd, FromFile (getProp options ''formatFile'')]" .
  from assms(2) have "\<exists>dirs. es1 = map MkDir dirs"
    by (auto simp: ensureDirectories_def parallel_def Let_def)
  with e2 show "\<forall>p. NewImportFile p \<notin> set (es1 @ es2)" by auto
qed

theorem prepareBulkInsert_missing_column_witness:
  "snd (prepareBulkInsert exEnv exBcp ''t'' [''F1'', ''Missing'', ''f0''] None) =
     Failed [Error ''[dbo].[t] does not contain column Missing'']"
proof -
  let ?opts = "mergeOptions [(''formatFile'', JStr (tempFile exEnv exBcp @ ''_format.xml'')),
                             (''importFile'', JStr (tempFile exEnv exBcp @ ''_import.dat''))] None"
  have h2: "ensureDirectories exEnv [getProp ?opts ''formatFile'', getProp ?opts ''importFile'']
      = ([MkDir ''/tmp''], Done ())"
    by code_simp
  have h3: "formatGenerate exEnv exBcp (getQualifiedTable exBcp ''t'') (getProp ?opts ''formatFile'')
      (getCommonArgs exBcp False)
      = (fst (formatGenerate exEnv exBcp (getQualifiedTable exBcp ''t'') (getProp ?opts ''formatFile'')
               (getCommonArgs exBcp False)), Done exFormat)"
    by (simp add: formatGenerate_def exEnv_def Let_def)
  have h4: "find (\<lambda>c. toLowerCase c \<notin> set (map (\<lambda>f. toLowerCase (name f)) (fields' exFormat)))
      [''F1'', ''Missing'', ''f0''] = Some ''Missing''"
    by code_simp
  have qt: "getQualifiedTable exBcp ''t'' = ''[dbo].[t]''"
    by code_simp
  from prepareBulkInsert_missing_column[OF refl h2 h3 h4] show ?thesis
    by (simp add: qt)
qed

end
